theory Spec2Isabelle
  imports Complex_Main "HOL-Library.Sublist"
begin

section \<open>Python values, errors and strings\<close>

text \<open>
  The repository is Python 2 code around three libraries: \<open>xml.etree\<close>/\<open>lxml\<close>,
  \<open>numpy\<close> and \<open>os.path\<close>. Python floats are modelled as \<^typ>\<open>real\<close>: rounding,
  infinities and NaN are not represented. Every exception the modelled code can raise is
  a value of \<open>py_error\<close>; a function that can raise returns \<open>py_error + 'a\<close>, with
  \<open>Inl\<close> for the exception.
\<close>

datatype py_error =
    IndexError | KeyError | AttributeError | TypeError | ValueError
  | NameError | UnboundLocalError | IOError | OSError | ParseError
  | Exception string

text \<open>\<open>UnboundLocalError\<close> is a subclass of \<open>NameError\<close> in Python.\<close>

definition bind :: "py_error + 'a \<Rightarrow> ('a \<Rightarrow> py_error + 'b) \<Rightarrow> py_error + 'b" where
  "bind m f = (case m of Inl e \<Rightarrow> Inl e | Inr x \<Rightarrow> f x)"

text \<open>The characters \<open>str.split()\<close>, \<open>str.strip()\<close>, \<open>lstrip\<close> and \<open>rstrip\<close> treat as
  whitespace in a Python 2 byte string: space, tab, newline, carriage return, vertical
  tab and form feed.\<close>

definition is_space :: "char \<Rightarrow> bool" where
  "is_space c = (c \<in> set [CHR '' '', CHR 0x09, CHR 0x0A, CHR 0x0D, CHR 0x0B, CHR 0x0C])"

definition lstrip :: "string \<Rightarrow> string" where
  "lstrip s = dropWhile is_space s"

definition rstrip :: "string \<Rightarrow> string" where
  "rstrip s = rev (dropWhile is_space (rev s))"

definition strip :: "string \<Rightarrow> string" where
  "strip s = rstrip (lstrip s)"

text \<open>\<open>s.split()\<close>: the maximal runs of non-whitespace characters, in order.\<close>

fun split_acc :: "string \<Rightarrow> string \<Rightarrow> string list" where
  "split_acc acc [] = (if acc = [] then [] else [acc])"
| "split_acc acc (c # cs) =
     (if is_space c then (if acc = [] then split_acc [] cs else acc # split_acc [] cs)
      else split_acc (acc @ [c]) cs)"

definition py_split :: "string \<Rightarrow> string list" where
  "py_split s = split_acc [] s"

text \<open>\<open>s.startswith(p)\<close> is \<^const>\<open>prefix\<close>; \<open>s.count(p) != 0\<close> for a non-empty \<open>p\<close>
  is \<^const>\<open>sublist\<close>.\<close>

section \<open>XML documents and the file system\<close>

text \<open>
  An element of an \<open>ElementTree\<close>: its tag, its attributes, its text (\<open>None\<close> for an
  element without text) and its children in document order. Comments and tails are not
  represented: no lookup of the code matches them.
\<close>

datatype xml = Element (tag: string) (attrib: "(string \<times> string) list")
  (text': "string option") (children: "xml list")

text \<open>All elements of a forest in document order (pre-order).\<close>

fun iter_forest :: "xml list \<Rightarrow> xml list" where
  "iter_forest [] = []"
| "iter_forest (Element t a x cs # es) =
     Element t a x cs # iter_forest cs @ iter_forest es"

text \<open>\<open>doc.findall('.//t')\<close>: the elements below the root with tag \<open>t\<close>, in document
  order. \<open>doc.find('.//t')\<close> is the first of them, \<open>e.find('t')\<close> the first child of \<open>e\<close>
  with tag \<open>t\<close>; both are \<open>None\<close> when there is none.\<close>

definition findall :: "xml \<Rightarrow> string \<Rightarrow> xml list" where
  "findall doc t = filter (\<lambda>e. tag e = t) (iter_forest (children doc))"

definition find_child :: "xml \<Rightarrow> string \<Rightarrow> xml option" where
  "find_child e t = List.find (\<lambda>c. tag c = t) (children e)"

text \<open>\<open>xs[0]\<close> raises \<open>IndexError\<close> on an empty list.\<close>

definition item0 :: "'a list \<Rightarrow> py_error + 'a" where
  "item0 xs = (case xs of [] \<Rightarrow> Inl IndexError | x # _ \<Rightarrow> Inr x)"

text \<open>\<open>xs[i]\<close> for an index \<open>i\<close> that is not negative.\<close>

definition getitem :: "'a list \<Rightarrow> nat \<Rightarrow> py_error + 'a" where
  "getitem xs i = (if i < length xs then Inr (xs ! i) else Inl IndexError)"

text \<open>\<open>e.attrib[k]\<close> raises \<open>KeyError\<close> for a missing attribute.\<close>

definition attrib_get :: "xml \<Rightarrow> string \<Rightarrow> py_error + string" where
  "attrib_get e k = (case map_of (attrib e) k of None \<Rightarrow> Inl KeyError | Some v \<Rightarrow> Inr v)"

text \<open>
  Changing the first element with tag \<open>t\<close> of a forest, in document order, by \<open>g\<close>; the
  result is \<open>None\<close> when no element has the tag. This is what an assignment through
  \<open>findall(...)[0]\<close> or \<open>find(...)\<close> does to the document.
\<close>

fun update_first :: "string \<Rightarrow> (xml \<Rightarrow> py_error + xml) \<Rightarrow> xml list \<Rightarrow> (py_error + xml list) option" where
  "update_first t g [] = None"
| "update_first t g (Element t' a x cs # es) =
     (if t' = t then Some (bind (g (Element t' a x cs)) (\<lambda>e'. Inr (e' # es)))
      else (case update_first t g cs of
              Some r \<Rightarrow> Some (bind r (\<lambda>cs'. Inr (Element t' a x cs' # es)))
            | None \<Rightarrow>
               (case update_first t g es of
                  Some r \<Rightarrow> Some (bind r (\<lambda>es'. Inr (Element t' a x cs # es')))
                | None \<Rightarrow> None)))"

definition set_text :: "string \<Rightarrow> xml \<Rightarrow> xml" where
  "set_text v e = Element (tag e) (attrib e) (Some v) (children e)"

text \<open>The first child with tag \<open>t\<close> gets the text \<open>v\<close>.\<close>

fun set_child_text :: "string \<Rightarrow> string \<Rightarrow> xml list \<Rightarrow> xml list" where
  "set_child_text t v [] = []"
| "set_child_text t v (c # cs) =
     (if tag c = t then set_text v c # cs else c # set_child_text t v cs)"

text \<open>
  A file is a parsed XML document, a text file (the list of its lines; by convention
  one that is not an XML document), a figure or a directory. Serialising a document is
  not modelled: a document that is written and parsed again is the same document.
\<close>

datatype fs_file = XmlFile xml | TextFile "string list" | Figure | Directory

type_synonym fs = "string \<Rightarrow> fs_file option"

definition path_exists :: "fs \<Rightarrow> string \<Rightarrow> bool" where
  "path_exists F p = (F p \<noteq> None)"

definition etree_parse :: "fs \<Rightarrow> string \<Rightarrow> py_error + xml" where
  "etree_parse F p =
     (case F p of
        Some (XmlFile doc) \<Rightarrow> Inr doc
      | Some (TextFile ls) \<Rightarrow> Inl ParseError
      | Some Figure \<Rightarrow> Inl ParseError
      | Some Directory \<Rightarrow> Inl IOError
      | None \<Rightarrow> Inl IOError)"

section \<open>The library and platform functions the code calls\<close>

text \<open>
  What the code takes from \<open>numpy\<close>, \<open>re\<close>, \<open>os.path\<close> and Python's number formatting,
  the external RRA executable and the plotting module \<open>epimysium.postprocessing\<close> (not
  among the sources) are parameters of the model, so that every theorem holds for any
  such library, tool and platform.
\<close>

record env =
  py_float :: "string \<Rightarrow> real option"
  np_float :: "string \<Rightarrow> real"
  validate_names :: "string list \<Rightarrow> string list"
  format_f :: "real \<Rightarrow> string"
  format_i :: "real \<Rightarrow> string"
  re_match :: "string \<Rightarrow> string \<Rightarrow> bool"
  path_isabs :: "string \<Rightarrow> bool"
  path_join :: "string \<Rightarrow> string \<Rightarrow> string"
  path_split :: "string \<Rightarrow> string \<times> string"
  path_normpath :: "string \<Rightarrow> string"
  path_relpath :: "string \<Rightarrow> string \<Rightarrow> string"
  raw_lines :: "fs_file \<Rightarrow> string list"
  run_tool :: "string list \<Rightarrow> fs \<Rightarrow> fs option"
  plot_rra_gait_info :: "string \<Rightarrow> fs \<Rightarrow> py_error option"

text \<open>
  \<^item> \<open>py_float s\<close> is \<open>float(s)\<close>, \<open>None\<close> where it raises \<open>ValueError\<close>;
  \<^item> \<open>np_float\<close> is the converter \<open>numpy.genfromtxt\<close> applies to a cell (it does not raise);
  \<^item> \<open>validate_names\<close> is numpy's \<open>NameValidator\<close>, which turns the header tokens into
    field names (it keeps their number);
  \<^item> \<open>format_f x\<close> is \<open>'%f' % x\<close> and \<open>format_i x\<close> is \<open>'%i' % x\<close>;
  \<^item> \<open>re_match p s\<close> says whether \<open>re.match(p, s)\<close> is a match;
  \<^item> the \<open>path_\<close> fields are \<open>os.path.isabs\<close>, \<open>join\<close>, \<open>split\<close>, \<open>normpath\<close>, \<open>relpath\<close>;
  \<^item> \<open>raw_lines f\<close> is what reading a file that is not a text file line by line gives;
  \<^item> \<open>run_tool cmd F\<close> is the file system after the command \<open>cmd\<close> has run on \<open>F\<close>,
    \<open>None\<close> when the executable cannot be started (\<open>subprocess.call\<close> raises
    \<open>OSError\<close>); the exit status of the tool is ignored by the code;
  \<^item> \<open>plot_rra_gait_info d F\<close> is the exception \<open>pproc.plot_rra_gait_info(d)\<close> raises, if any.
\<close>

definition open_lines :: "env \<Rightarrow> fs \<Rightarrow> string \<Rightarrow> py_error + string list" where
  "open_lines E F p =
     (case F p of
        Some (TextFile ls) \<Rightarrow> Inr ls
      | Some Directory \<Rightarrow> Inl IOError
      | Some f \<Rightarrow> Inr (raw_lines E f)
      | None \<Rightarrow> Inl IOError)"

section \<open>Storage files: \<open>dataman.storage2numpy\<close>\<close>

text \<open>A table is numpy's structured array: the field names in order, each with its column.\<close>

type_synonym table = "(string \<times> real list) list"

subsection \<open>\<open>numpy.genfromtxt(file, names=True, skip_header=n)\<close>\<close>

text \<open>
  The library call, with the default delimiter (whitespace), comment character \<open>#\<close> and
  type (float). A text file is the list of its lines.
\<close>

definition strip_comment :: "string \<Rightarrow> string" where
  "strip_comment l = takeWhile (\<lambda>c. c \<noteq> CHR ''#'') l"

definition split_line :: "string \<Rightarrow> string list" where
  "split_line l = py_split (strip_comment l)"

text \<open>On the line of names a leading comment mark is dropped, not the text after it:
  \<open>''.join(line.split('#')[1:])\<close>.\<close>

definition header_text :: "string \<Rightarrow> string" where
  "header_text l =
     (if CHR ''#'' \<in> set l
      then filter (\<lambda>c. c \<noteq> CHR ''#'') (tl (dropWhile (\<lambda>c. c \<noteq> CHR ''#'') l))
      else l)"

text \<open>The first line that has a token gives the names; the lines after it are the data.\<close>

fun first_values :: "string list \<Rightarrow> (string list \<times> string list) option" where
  "first_values [] = None"
| "first_values (l # ls) =
     (let v = split_line (header_text l) in
      if v = [] then first_values ls else Some (v, ls))"

definition genfromtxt :: "env \<Rightarrow> string list \<Rightarrow> nat \<Rightarrow> py_error + table" where
  "genfromtxt E lines skip_header =
     (case first_values (drop skip_header lines) of
        None \<Rightarrow> Inl IndexError
      | Some (first, data) \<Rightarrow>
          (let names = validate_names E first;
               nbcols = length first;
               rows = filter (\<lambda>v. v \<noteq> []) (map split_line data)
           in if \<exists>r \<in> set rows. length r \<noteq> nbcols then Inl ValueError
              else Inr (zip names
                          (map (\<lambda>i. map (\<lambda>r. np_float E (r ! i)) rows) [0 ..< nbcols]))))"

subsection \<open>\<open>storage2numpy\<close>\<close>

text \<open>
  The loop \<open>for i, line in enumerate(f)\<close> of lines 71-74: the value of
  \<open>line_number_of_line_containing_endheader\<close> when the loop ends, \<open>None\<close> when the
  variable was never assigned.
\<close>

fun find_endheader :: "nat \<Rightarrow> string list \<Rightarrow> nat option" where
  "find_endheader i [] = None"
| "find_endheader i (line # rest) =
     (if sublist ''endheader'' line then Some (i + 1) else find_endheader (i + 1) rest)"

definition storage2numpy_lines :: "env \<Rightarrow> string list \<Rightarrow> py_error + table" where
  "storage2numpy_lines E lines =
     (case find_endheader 0 lines of
        None \<Rightarrow> Inl UnboundLocalError
      | Some line_number_of_line_containing_endheader \<Rightarrow>
          genfromtxt E lines line_number_of_line_containing_endheader)"

definition storage2numpy :: "env \<Rightarrow> fs \<Rightarrow> string \<Rightarrow> py_error + table" where
  "storage2numpy E F storage_file =
     bind (open_lines E F storage_file) (\<lambda>lines. storage2numpy_lines E lines)"

section \<open>The input bundler: \<open>dataman.copy_cmc_inputs\<close>\<close>

text \<open>\<open>s.replace(old, new)\<close>: the occurrences of \<open>old\<close> are replaced from left to right
  without overlap; an empty \<open>old\<close> matches before every character and at the end.\<close>

function replace_from :: "string \<Rightarrow> string \<Rightarrow> string \<Rightarrow> string" where
  "replace_from old new [] = []"
| "replace_from old new (c # cs) =
     (if prefix old (c # cs) then new @ replace_from old new (drop (length old - 1) cs)
      else c # replace_from old new cs)"
  by pat_completeness auto
termination
  by (relation "measure (\<lambda>(old, new, s). length s)") auto

definition str_replace :: "string \<Rightarrow> string \<Rightarrow> string \<Rightarrow> string" where
  "str_replace old new s =
     (if old = [] then concat (map (\<lambda>c. new @ [c]) s) @ new else replace_from old new s)"

text \<open>
  The fields of a setup document are read and written through \<open>xml.findall('.//%s' %
  tag)[0]\<close>: \<open>field_text\<close> is the expression \<open>xml.findall('.//%s' % tag)[0].text\<close>, and
  \<open>set_field\<close> is the assignment \<open>xml.findall('.//%s' % tag)[0].text = v\<close>, which
  gives the document as changed.
\<close>

definition field_text :: "xml \<Rightarrow> string \<Rightarrow> py_error + string option" where
  "field_text doc t = bind (item0 (findall doc t)) (\<lambda>e. Inr (text' e))"

definition set_field :: "xml \<Rightarrow> string \<Rightarrow> string \<Rightarrow> py_error + xml" where
  "set_field doc t v =
     (case update_first t (\<lambda>e. Inr (set_text v e)) (children doc) of
        None \<Rightarrow> Inl IndexError
      | Some r \<Rightarrow> bind r (\<lambda>cs. Inr (Element (tag doc) (attrib doc) (text' doc) cs)))"

text \<open>
  \<open>valid_path\<close> (lines 197-223), a closure over \<open>replace\<close>, the caller's dictionary of
  substitutions (\<open>None\<close>, or its items in the order \<open>replace.items()\<close> gives them). The
  part after the field is read is \<open>resolve_path\<close>; its result \<open>None\<close> is Python's
  \<open>None\<close>.
\<close>

definition resolve_path ::
    "env \<Rightarrow> fs \<Rightarrow> (string \<times> string) list option \<Rightarrow> string \<Rightarrow> string option
      \<Rightarrow> py_error + string option" where
  "resolve_path E F replace file_containing_path text0 =
     (case text0 of
        None \<Rightarrow> Inr None
      | Some path0 \<Rightarrow>
          if lstrip path0 = [] then Inr None
          else if path_exists F path0 then Inr (Some path0)
          else
            let path1 = (case replace of
                           None \<Rightarrow> path0
                         | Some items \<Rightarrow> fold (\<lambda>(key, val) p. str_replace key val p) items path0)
            in if path_exists F path1 then Inr (Some path1)
            else
              let path = str_replace [CHR 0x5C] ''/'' path1 in
              if path_exists F path then Inr (Some path)
              else
                let dir = fst (path_split E file_containing_path);
                    path2a = path_normpath E (path_join E dir path) in
                if path_exists F path2a then Inr (Some path2a)
                else
                  let path2b = path_normpath E (path_join E dir (lstrip path)) in
                  if path_exists F path2b then Inr (Some path2b)
                  else
                    let path2 = path_normpath E (path_join E dir (rstrip path)) in
                    if path_exists F path2 then Inr (Some path2)
                    else Inl (Exception (''Paths '' @ path @ '' and '' @ path2
                                          @ '' do not exist.'')))"

definition valid_path ::
    "env \<Rightarrow> fs \<Rightarrow> (string \<times> string) list option \<Rightarrow> string \<Rightarrow> xml \<Rightarrow> string
      \<Rightarrow> py_error + string option" where
  "valid_path E F replace file_containing_path doc t =
     bind (field_text doc t) (resolve_path E F replace file_containing_path)"

text \<open>
  \<open>edit_field\<close> (lines 274-283), a closure over the dictionary \<open>old\<close> of resolved
  paths, \<open>do_not_copy\<close>, the keyword arguments and \<open>destination\<close>. In each assignment
  Python evaluates the right-hand side before the target.
\<close>

definition edit_field ::
    "env \<Rightarrow> (string \<Rightarrow> string option option) \<Rightarrow> string list option
      \<Rightarrow> (string \<Rightarrow> string option) \<Rightarrow> string \<Rightarrow> xml \<Rightarrow> string \<Rightarrow> string
      \<Rightarrow> py_error + xml" where
  "edit_field E old do_not_copy kwargs destination doc t key =
     (case old key of
        None \<Rightarrow> Inl KeyError
      | Some None \<Rightarrow> Inr doc
      | Some (Some p) \<Rightarrow>
          if p = [] then Inr doc
          else if (case do_not_copy of None \<Rightarrow> False | Some ks \<Rightarrow> key \<in> set ks)
          then set_field doc t (path_relpath E p destination)
          else
            let newvalue = (case kwargs key of
                              Some v \<Rightarrow> v
                            | None \<Rightarrow> snd (path_split E p))
            in set_field doc t newvalue)"

section \<open>Task weights: \<open>rra.py\<close>\<close>

subsection \<open>The weights file\<close>

text \<open>\<open>xs.index(x)\<close>: the first position of \<open>x\<close>, \<open>ValueError\<close> when \<open>x\<close> is not in
  the list.\<close>

fun list_index :: "'a list \<Rightarrow> 'a \<Rightarrow> nat option" where
  "list_index [] x = None"
| "list_index (y # ys) x = (if y = x then Some 0 else map_option Suc (list_index ys x))"

definition py_index :: "'a list \<Rightarrow> 'a \<Rightarrow> py_error + nat" where
  "py_index xs x = (case list_index xs x of None \<Rightarrow> Inl ValueError | Some i \<Rightarrow> Inr i)"

text \<open>A loop that collects one result per element and stops at the first exception.\<close>

fun map_results :: "('a \<Rightarrow> py_error + 'b) \<Rightarrow> 'a list \<Rightarrow> py_error + 'b list" where
  "map_results f [] = Inr []"
| "map_results f (x # xs) =
     bind (f x) (\<lambda>y. bind (map_results f xs) (\<lambda>ys. Inr (y # ys)))"

text \<open>
  \<open>task_weights_from_file\<close> (lines 33-43). The first loop fills the dictionary
  \<open>file_weights\<close>; in its assignment the right-hand side \<open>float(task.find('weight').text)\<close>
  is evaluated before the key \<open>task.attrib['name']\<close>. The second loop fills the array.
\<close>

definition read_joint :: "env \<Rightarrow> xml \<Rightarrow> py_error + (string \<times> real)" where
  "read_joint E task =
     (case find_child task ''weight'' of
        None \<Rightarrow> Inl AttributeError
      | Some w \<Rightarrow>
          (case text' w of
             None \<Rightarrow> Inl TypeError
           | Some s \<Rightarrow>
               (case py_float E s of
                  None \<Rightarrow> Inl ValueError
                | Some v \<Rightarrow> bind (attrib_get task ''name'') (\<lambda>n. Inr (n, v)))))"

fun read_joints :: "env \<Rightarrow> xml list \<Rightarrow> (string \<Rightarrow> real option) \<Rightarrow> py_error + (string \<Rightarrow> real option)" where
  "read_joints E [] file_weights = Inr file_weights"
| "read_joints E (task # tasks) file_weights =
     bind (read_joint E task) (\<lambda>(n, v). read_joints E tasks (file_weights(n \<mapsto> v)))"

definition task_weights_from_file :: "env \<Rightarrow> fs \<Rightarrow> string \<Rightarrow> string list \<Rightarrow> py_error + real list" where
  "task_weights_from_file E F fpath task_names =
     bind (etree_parse F fpath) (\<lambda>cmcts.
     bind (read_joints E (findall cmcts ''CMC_Joint'') Map.empty) (\<lambda>file_weights.
     map_results (\<lambda>name. case file_weights name of None \<Rightarrow> Inl KeyError | Some v \<Rightarrow> Inr v)
       task_names))"

text \<open>
  A call of \<open>task_weights_from_file\<close> with the positional arguments the call site
  gives: \<open>fpath\<close> always, \<open>task_names\<close> when the call site passes a second argument.
  Both parameters are required, so Python raises \<open>TypeError\<close> for a call with one
  argument, before the body runs.
\<close>

definition call_task_weights_from_file ::
    "env \<Rightarrow> fs \<Rightarrow> string \<Rightarrow> string list option \<Rightarrow> py_error + real list" where
  "call_task_weights_from_file E F fpath second_arg =
     (case second_arg of
        None \<Rightarrow> Inl TypeError
      | Some task_names \<Rightarrow> task_weights_from_file E F fpath task_names)"

text \<open>
  \<open>all_task_names\<close> (lines 45-49) reads the name \<open>cmcts\<close>, which the function never
  assigns: Python looks it up among the globals of the module. \<open>globals\<close> are the
  documents bound at the top level of a module; \<open>rra.py\<close> binds only its imports,
  \<open>xml_parser\<close> and its functions there, so \<open>rra_globals\<close> binds no document.
\<close>

definition all_task_names :: "(string \<Rightarrow> xml option) \<Rightarrow> string \<Rightarrow> py_error + string list" where
  "all_task_names globals tasks_fpath =
     (case globals ''cmcts'' of
        None \<Rightarrow> Inl NameError
      | Some cmcts \<Rightarrow>
          map_results (\<lambda>task. attrib_get task ''name'') (findall cmcts ''CMC_Joint''))"

definition rra_globals :: "string \<Rightarrow> xml option" where
  "rra_globals = (\<lambda>name. None)"

text \<open>
  The world the function changes: the files, and the log of what it did to them, in
  order. \<open>Wrote p ws\<close>: the weights \<open>ws\<close> were written to the tasks file \<open>p\<close>;
  \<open>Called cmd\<close>: the external tool was run; \<open>Saved p\<close>: the figure was saved.
  What the code prints is not modelled.
\<close>

datatype event = Wrote string "real list" | Called "string list" | Saved string

record world =
  files :: fs
  events :: "event list"

text \<open>
  \<open>write_task_weights_to_file\<close> (lines 20-31). For a joint of the loop,
  \<open>joint_weight_text\<close> is the text \<open>format_str % task_weights[itask]\<close> its weight gets
  (\<open>None\<close> when its name is not in \<open>task_names\<close>) or the exception the loop body raises
  there: the right-hand side of the assignment is evaluated before
  \<open>task.find('weight')\<close>. \<open>write_joints\<close> is the loop over
  \<open>findall('.//CMC_Joint')\<close>, in document order.
\<close>

definition joint_weight_text ::
    "env \<Rightarrow> real list \<Rightarrow> string list \<Rightarrow> bool \<Rightarrow> xml \<Rightarrow> py_error + string option" where
  "joint_weight_text E task_weights task_names do_round task =
     bind (attrib_get task ''name'') (\<lambda>name.
       if name \<in> set task_names then
         bind (py_index task_names name) (\<lambda>itask.
         bind (getitem task_weights itask) (\<lambda>weight.
           let s = (if do_round then format_i E weight else format_f E weight) in
           (case find_child task ''weight'' of
              None \<Rightarrow> Inl AttributeError
            | Some w \<Rightarrow> Inr (Some s))))
       else Inr None)"

fun write_joints :: "(xml \<Rightarrow> py_error + string option) \<Rightarrow> xml list \<Rightarrow> py_error + xml list" where
  "write_joints f [] = Inr []"
| "write_joints f (Element t a x cs # es) =
     bind (if t = ''CMC_Joint'' then f (Element t a x cs) else Inr None) (\<lambda>new_text.
     bind (write_joints f cs) (\<lambda>cs'.
     bind (write_joints f es) (\<lambda>es'.
       Inr (Element t a x
              (case new_text of None \<Rightarrow> cs' | Some v \<Rightarrow> set_child_text ''weight'' v cs')
            # es'))))"

definition write_task_weights_to_file ::
    "env \<Rightarrow> real list \<Rightarrow> string \<Rightarrow> string list \<Rightarrow> bool \<Rightarrow> world \<Rightarrow> (py_error + unit) \<times> world" where
  "write_task_weights_to_file E task_weights tasks_fpath task_names do_round w =
     (case etree_parse (files w) tasks_fpath of
        Inl e \<Rightarrow> (Inl e, w)
      | Inr cmcts \<Rightarrow>
          (case update_first ''objects''
                  (\<lambda>objects.
                     bind (write_joints (joint_weight_text E task_weights task_names do_round)
                             (children objects))
                       (\<lambda>cs. Inr (Element (tag objects) (attrib objects) (text' objects) cs)))
                  (children cmcts) of
             None \<Rightarrow> (Inl AttributeError, w)
           | Some (Inl e) \<Rightarrow> (Inl e, w)
           | Some (Inr cs) \<Rightarrow>
               (Inr (),
                w\<lparr>files := (files w)(tasks_fpath \<mapsto>
                             XmlFile (Element (tag cmcts) (attrib cmcts) (text' cmcts) cs)),
                  events := events w @ [Wrote tasks_fpath task_weights]\<rparr>)))"

subsection \<open>The error of a task\<close>

text \<open>\<open>np.abs\<close>, \<open>np.max\<close> (which raises \<open>ValueError\<close> on an empty array),
  \<open>np.rad2deg\<close>, and \<open>pErr[colname]\<close> (\<open>ValueError\<close> for a name that is no field).\<close>

definition np_abs :: "real list \<Rightarrow> real list" where
  "np_abs xs = map abs xs"

definition np_max :: "real list \<Rightarrow> py_error + real" where
  "np_max xs = (case xs of [] \<Rightarrow> Inl ValueError | x # rest \<Rightarrow> Inr (fold max rest x))"

definition rad2deg :: "real \<Rightarrow> real" where
  "rad2deg x = x * (180 / pi)"

definition column :: "table \<Rightarrow> string \<Rightarrow> py_error + real list" where
  "column pErr colname =
     (case map_of pErr colname of None \<Rightarrow> Inl ValueError | Some col \<Rightarrow> Inr col)"

text \<open>
  \<open>max_error\<close> (lines 51-63). The accumulator is the pair of \<open>maxerr\<close> and
  \<open>max_colname\<close>: \<open>None\<close> stands for the state before the first assignment, where
  \<open>maxerr\<close> is \<open>-inf\<close> (every error is above it) and \<open>max_colname\<close> is unbound;
  returning in that state raises \<open>UnboundLocalError\<close>.
\<close>

fun max_error_loop ::
    "table \<Rightarrow> string list \<Rightarrow> string list \<Rightarrow> (real \<times> string) option
      \<Rightarrow> py_error + (real \<times> string) option" where
  "max_error_loop pErr task_names [] acc = Inr acc"
| "max_error_loop pErr task_names (colname # rest) acc =
     (if colname \<in> set task_names then
        bind (column pErr colname) (\<lambda>col.
        bind (if prefix ''pelvis_t'' colname
              then bind (np_max (np_abs col)) (\<lambda>m. Inr (100 * m))
              else bind (np_max (np_abs col)) (\<lambda>m. Inr (rad2deg m))) (\<lambda>this_max_err.
          if (case acc of None \<Rightarrow> True | Some (maxerr, max_colname) \<Rightarrow> this_max_err > maxerr)
          then max_error_loop pErr task_names rest (Some (this_max_err, colname))
          else max_error_loop pErr task_names rest acc))
      else max_error_loop pErr task_names rest acc)"

definition max_error :: "table \<Rightarrow> string list \<Rightarrow> py_error + (real \<times> string)" where
  "max_error pErr task_names =
     bind (max_error_loop pErr task_names (map fst pErr) None) (\<lambda>acc.
       case acc of None \<Rightarrow> Inl UnboundLocalError | Some r \<Rightarrow> Inr r)"

text \<open>\<open>min_error\<close> (lines 65-77), with \<open>None\<close> for \<open>minerr = inf\<close> and \<open>min_colname\<close>
  unbound.\<close>

fun min_error_loop ::
    "table \<Rightarrow> string list \<Rightarrow> string list \<Rightarrow> (real \<times> string) option
      \<Rightarrow> py_error + (real \<times> string) option" where
  "min_error_loop pErr task_names [] acc = Inr acc"
| "min_error_loop pErr task_names (colname # rest) acc =
     (if colname \<in> set task_names then
        bind (column pErr colname) (\<lambda>col.
        bind (if prefix ''pelvis_t'' colname
              then bind (np_max (np_abs col)) (\<lambda>m. Inr (100 * m))
              else bind (np_max (np_abs col)) (\<lambda>m. Inr (rad2deg m))) (\<lambda>this_min_err.
          if (case acc of None \<Rightarrow> True | Some (minerr, min_colname) \<Rightarrow> this_min_err < minerr)
          then min_error_loop pErr task_names rest (Some (this_min_err, colname))
          else min_error_loop pErr task_names rest acc))
      else min_error_loop pErr task_names rest acc)"

definition min_error :: "table \<Rightarrow> string list \<Rightarrow> py_error + (real \<times> string)" where
  "min_error pErr task_names =
     bind (min_error_loop pErr task_names (map fst pErr) None) (\<lambda>acc.
       case acc of None \<Rightarrow> Inl UnboundLocalError | Some r \<Rightarrow> Inr r)"

subsection \<open>\<open>select_rra_task_weights\<close>\<close>

text \<open>
  Lines 151-155: \<open>orig_task_names\<close> is the list \<open>task_names\<close> itself, so the loop
  removes from the list it iterates over; Python's list iterator keeps a position \<open>i\<close>
  and reads the list as it is then.
\<close>

function omit_loop :: "(string \<Rightarrow> bool) \<Rightarrow> nat \<Rightarrow> string list \<Rightarrow> string list" where
  "omit_loop omit i task_names =
     (if i < length task_names then
        (if omit (task_names ! i)
         then omit_loop omit (Suc i) (remove1 (task_names ! i) task_names)
         else omit_loop omit (Suc i) task_names)
      else task_names)"
  by pat_completeness auto
termination
  by (relation "measure (\<lambda>(omit, i, task_names). length task_names - i)")
     (auto simp: length_remove1)

text \<open>
  The body of the \<open>for\<close> loop of lines 195-217, over the names \<open>pErr.dtype.names\<close>
  still to visit: the new array of task weights.
\<close>

fun choose_weights ::
    "real \<Rightarrow> real \<Rightarrow> real \<Rightarrow> string list \<Rightarrow> table \<Rightarrow> string list \<Rightarrow> real list
      \<Rightarrow> py_error + real list" where
  "choose_weights min_max_err max_max_err avg_max_err task_names pErr [] task_weights =
     Inr task_weights"
| "choose_weights min_max_err max_max_err avg_max_err task_names pErr (colname # rest)
       task_weights =
     (if colname \<in> set task_names then
        bind (column pErr colname) (\<lambda>col.
        bind (if prefix ''pelvis_t'' colname
              then bind (np_max (np_abs col)) (\<lambda>m. Inr (100 * m))
              else bind (np_max (np_abs col)) (\<lambda>m. Inr (rad2deg m))) (\<lambda>this_err.
          if this_err > max_max_err \<or> this_err < min_max_err then
            bind (if this_err > max_max_err then Inr (this_err - avg_max_err)
                  else if this_err < min_max_err then Inr (- abs (avg_max_err - this_err))
                  else Inl (Exception ''Unexpected error value.'')) (\<lambda>increment.
            bind (py_index task_names colname) (\<lambda>i.
            bind (getitem task_weights i) (\<lambda>prev_weight.
              let new_weight = prev_weight + 0.5 * increment * prev_weight in
              choose_weights min_max_err max_max_err avg_max_err task_names pErr rest
                (task_weights[i := new_weight]))))
          else choose_weights min_max_err max_max_err avg_max_err task_names pErr rest
                 task_weights))
      else choose_weights min_max_err max_max_err avg_max_err task_names pErr rest
             task_weights)"

text \<open>
  The value of \<open>this_err\<close> (lines 197-200), \<open>this_max_err\<close> (lines 56-59) and
  \<open>this_min_err\<close> (lines 70-73) for a column that is not empty, written with the
  largest element of a set: the code tests the name of the column, and a column whose
  name starts with \<open>pelvis_t\<close> is multiplied by 100, every other column by
  \<open>180 / pi\<close>. Whether the task is a rotation or a translation is not looked at.
\<close>

definition this_err_value :: "string \<Rightarrow> real list \<Rightarrow> real" where
  "this_err_value colname col =
     (if prefix ''pelvis_t'' colname then 100 * Max (abs ` set col)
      else Max (abs ` set col) * 180 / pi)"

text \<open>\<open>subprocess.call(rra_command, stdout=our_stdout)\<close>, and lines 225-226, the plot
  and \<open>fig.savefig(fig_fpath)\<close>.\<close>

definition subprocess_call :: "env \<Rightarrow> string list \<Rightarrow> world \<Rightarrow> (py_error + unit) \<times> world" where
  "subprocess_call E cmd w =
     (case run_tool E cmd (files w) of
        None \<Rightarrow> (Inl OSError, w)
      | Some F \<Rightarrow> (Inr (), w\<lparr>files := F, events := events w @ [Called cmd]\<rparr>))"

definition update_plot :: "env \<Rightarrow> string \<Rightarrow> world \<Rightarrow> (py_error + unit) \<times> world" where
  "update_plot E fig_fpath w =
     (case plot_rra_gait_info E ''results'' (files w) of
        Some e \<Rightarrow> (Inl e, w)
      | None \<Rightarrow>
          (Inr (), w\<lparr>files := (files w)(fig_fpath \<mapsto> Figure),
                     events := events w @ [Saved fig_fpath]\<rparr>))"

text \<open>The local variables that are fixed when the loop starts, and those the loop
  assigns.\<close>

record rra_ctx =
  task_names :: "string list"
  tasks_fpath :: string
  pErr_fpath :: string
  fig_fpath :: string
  rra_command :: "string list"
  min_max_err :: real
  max_max_err :: real
  avg_max_err :: real

record loop_state =
  task_weights :: "real list"
  pErr :: table
  maxerr :: real
  minerr :: real
  iter_count :: nat

text \<open>\<open>e.text.strip()\<close>: an element without text has the text \<open>None\<close>, which has no
  method \<open>strip\<close>.\<close>

definition text_strip :: "xml \<Rightarrow> py_error + string" where
  "text_strip e = (case text' e of None \<Rightarrow> Inl AttributeError | Some s \<Rightarrow> Inr (strip s))"

text \<open>
  Lines 136-177, which read the setup file and the tasks file and change nothing:
  the variables of the loop and the first task weights. \<open>os.path.dirname(p)\<close> is
  \<open>os.path.split(p)[0]\<close>, and a \<open>join\<close> of three parts is two joins.
\<close>

definition read_setup ::
    "env \<Rightarrow> fs \<Rightarrow> string \<Rightarrow> string list option \<Rightarrow> string option \<Rightarrow> real \<Rightarrow> real \<Rightarrow> string
      \<Rightarrow> py_error + (rra_ctx \<times> real list)" where
  "read_setup E F setup_fpath task_names_arg task_name_regex_omit min_max_err_arg
       max_max_err_arg rra_executable =
     bind (etree_parse F setup_fpath) (\<lambda>rra.
     let setup_dir = fst (path_split E setup_fpath) in
     bind (item0 (findall rra ''task_set_file'')) (\<lambda>e1.
     bind (text_strip e1) (\<lambda>task_setup_path.
     let tasks_fpath_v = (if \<not> path_isabs E task_setup_path then task_setup_path
                          else path_join E setup_dir task_setup_path) in
     bind (case task_names_arg of
             None \<Rightarrow> all_task_names rra_globals tasks_fpath_v
           | Some names \<Rightarrow> Inr names) (\<lambda>task_names1.
     let task_names_v = (case task_name_regex_omit of
                           None \<Rightarrow> task_names1
                         | Some r \<Rightarrow> if r = [] then task_names1
                                    else omit_loop (re_match E r) 0 task_names1) in
     bind (item0 (findall rra ''results_directory'')) (\<lambda>e2.
     bind (text_strip e2) (\<lambda>resdir_name.
     bind (item0 (findall rra ''RRATool'')) (\<lambda>e3.
     bind (attrib_get e3 ''name'') (\<lambda>rratool_name.
     let pErr_fname = rratool_name @ ''_pErr.sto'';
         pErr_fpath_v = path_join E (path_join E setup_dir ''results'') pErr_fname;
         fig_fpath_v = path_join E setup_dir ''residuals_and_kinematics_error_auto_rra.pdf'';
         avg = 0.5 * (min_max_err_arg + max_max_err_arg);
         cmd = [rra_executable, ''-S'', setup_fpath] in
     bind (call_task_weights_from_file E F tasks_fpath_v (Some task_names_v)) (\<lambda>weights.
       Inr (\<lparr>task_names = task_names_v, tasks_fpath = tasks_fpath_v,
              pErr_fpath = pErr_fpath_v, fig_fpath = fig_fpath_v, rra_command = cmd,
              min_max_err = min_max_err_arg, max_max_err = max_max_err_arg,
              avg_max_err = avg\<rparr>, weights))))))))))"

text \<open>Lines 182-185, and again 232-234: the errors are read from the tool's output.\<close>

definition read_errors ::
    "env \<Rightarrow> fs \<Rightarrow> rra_ctx \<Rightarrow> real list \<Rightarrow> nat \<Rightarrow> py_error + loop_state" where
  "read_errors E F C weights n =
     bind (storage2numpy E F (pErr_fpath C)) (\<lambda>pErr_v.
     bind (max_error pErr_v (task_names C)) (\<lambda>(maxerr_v, max_colname).
     bind (min_error pErr_v (task_names C)) (\<lambda>(minerr_v, min_colname).
       Inr \<lparr>task_weights = weights, pErr = pErr_v, maxerr = maxerr_v, minerr = minerr_v,
            iter_count = n\<rparr>)))"

text \<open>Lines 136-185: everything before the loop. The tool runs once here when its
  output file does not exist yet.\<close>

definition before_loop ::
    "env \<Rightarrow> string \<Rightarrow> string list option \<Rightarrow> string option \<Rightarrow> real \<Rightarrow> real \<Rightarrow> string
      \<Rightarrow> world \<Rightarrow> (py_error + (rra_ctx \<times> loop_state)) \<times> world" where
  "before_loop E setup_fpath task_names_arg task_name_regex_omit min_max_err_arg
       max_max_err_arg rra_executable w =
     (case read_setup E (files w) setup_fpath task_names_arg task_name_regex_omit
             min_max_err_arg max_max_err_arg rra_executable of
        Inl e \<Rightarrow> (Inl e, w)
      | Inr (C, weights) \<Rightarrow>
          (case (if \<not> path_exists (files w) (pErr_fpath C)
                 then subprocess_call E (rra_command C) w else (Inr (), w)) of
             (Inl e, w1) \<Rightarrow> (Inl e, w1)
           | (Inr u, w1) \<Rightarrow>
               (case read_errors E (files w1) C weights 0 of
                  Inl e \<Rightarrow> (Inl e, w1)
                | Inr st \<Rightarrow> (Inr (C, st), w1))))"

text \<open>The test of the \<open>while\<close> loop, line 186.\<close>

definition loop_test :: "rra_ctx \<Rightarrow> loop_state \<Rightarrow> bool" where
  "loop_test C st = (maxerr st > max_max_err C \<or> minerr st < min_max_err C)"

text \<open>
  The body of the \<open>while\<close> loop, lines 188-234: the state for the next test of the
  loop, or the exception that ends the function, and the world as the body leaves it in
  either case. Line 231 calls \<open>task_weights_from_file(tasks_fpath)\<close>, with one argument.
\<close>

definition loop_body ::
    "env \<Rightarrow> rra_ctx \<Rightarrow> loop_state \<Rightarrow> world \<Rightarrow> (py_error + loop_state) \<times> world" where
  "loop_body E C st w =
     (let n = iter_count st + 1 in
      case choose_weights (min_max_err C) (max_max_err C) (avg_max_err C) (task_names C)
             (pErr st) (map fst (pErr st)) (task_weights st) of
        Inl e \<Rightarrow> (Inl e, w)
      | Inr weights \<Rightarrow>
          (case write_task_weights_to_file E weights (tasks_fpath C) (task_names C) False w of
             (Inl e, w1) \<Rightarrow> (Inl e, w1)
           | (Inr u1, w1) \<Rightarrow>
               (case subprocess_call E (rra_command C) w1 of
                  (Inl e, w2) \<Rightarrow> (Inl e, w2)
                | (Inr u2, w2) \<Rightarrow>
                    (case update_plot E (fig_fpath C) w2 of
                       (Inl e, w3) \<Rightarrow> (Inl e, w3)
                     | (Inr u3, w3) \<Rightarrow>
                         (case call_task_weights_from_file E (files w3) (tasks_fpath C) None of
                            Inl e \<Rightarrow> (Inl e, w3)
                          | Inr weights' \<Rightarrow>
                              (case read_errors E (files w3) C weights' n of
                                 Inl e \<Rightarrow> (Inl e, w3)
                               | Inr st' \<Rightarrow> (Inr st', w3)))))))"

text \<open>The \<open>while\<close> loop. It has no bound on its iterations, so it is a partial
  function: \<open>None\<close> is a loop that does not end.\<close>

partial_function (option) rra_loop ::
    "env \<Rightarrow> rra_ctx \<Rightarrow> loop_state \<Rightarrow> world \<Rightarrow> ((py_error + unit) \<times> world) option" where
  "rra_loop E C st w =
     (if loop_test C st then
        (case loop_body E C st w of
           (Inl e, w') \<Rightarrow> Some (Inl e, w')
         | (Inr st', w') \<Rightarrow> rra_loop E C st' w')
      else Some (Inr (), w))"

definition select_rra_task_weights ::
    "env \<Rightarrow> string \<Rightarrow> string list option \<Rightarrow> string option \<Rightarrow> real \<Rightarrow> real \<Rightarrow> string
      \<Rightarrow> world \<Rightarrow> ((py_error + unit) \<times> world) option" where
  "select_rra_task_weights E setup_fpath task_names_arg task_name_regex_omit min_max_err_arg
       max_max_err_arg rra_executable w =
     (case before_loop E setup_fpath task_names_arg task_name_regex_omit min_max_err_arg
             max_max_err_arg rra_executable w of
        (Inl e, w0) \<Rightarrow> Some (Inl e, w0)
      | (Inr (C, st), w0) \<Rightarrow> rra_loop E C st w0)"

section \<open>A POSIX platform and a sample run\<close>

text \<open>
  One instance of the parameters, for evaluating the functions on concrete inputs:
  \<open>posixpath\<close> for \<open>os.path\<close>, decimal numerals for \<open>float\<close>, and fixed notation with
  six decimals for \<open>'%f'\<close>.
\<close>

definition posix_isabs :: "string \<Rightarrow> bool" where
  "posix_isabs p = prefix ''/'' p"

definition posix_join :: "string \<Rightarrow> string \<Rightarrow> string" where
  "posix_join a b =
     (if prefix ''/'' b then b
      else if a = [] \<or> suffix ''/'' a then a @ b
      else a @ ''/'' @ b)"

definition posix_split :: "string \<Rightarrow> string \<times> string" where
  "posix_split p =
     (let tail = rev (takeWhile (\<lambda>c. c \<noteq> CHR ''/'') (rev p));
          head = rev (dropWhile (\<lambda>c. c \<noteq> CHR ''/'') (rev p));
          head' = (if head \<noteq> [] \<and> head \<noteq> replicate (length head) (CHR ''/'')
                   then rev (dropWhile (\<lambda>c. c = CHR ''/'') (rev head)) else head)
      in (head', tail))"

text \<open>\<open>s.split('/')\<close> and \<open>'/'.join(xs)\<close>.\<close>

fun split_slash :: "string \<Rightarrow> string \<Rightarrow> string list" where
  "split_slash acc [] = [acc]"
| "split_slash acc (c # cs) =
     (if c = CHR ''/'' then acc # split_slash [] cs else split_slash (acc @ [c]) cs)"

fun join_slash :: "string list \<Rightarrow> string" where
  "join_slash [] = []"
| "join_slash [x] = x"
| "join_slash (x # y # ys) = x @ ''/'' @ join_slash (y # ys)"

fun norm_comps :: "bool \<Rightarrow> string list \<Rightarrow> string list \<Rightarrow> string list" where
  "norm_comps initial_slashes [] new_comps = new_comps"
| "norm_comps initial_slashes (comp' # comps) new_comps =
     (if comp' = [] \<or> comp' = ''.'' then norm_comps initial_slashes comps new_comps
      else if comp' \<noteq> ''..'' \<or> (\<not> initial_slashes \<and> new_comps = [])
              \<or> (new_comps \<noteq> [] \<and> last new_comps = ''..'')
      then norm_comps initial_slashes comps (new_comps @ [comp'])
      else if new_comps \<noteq> [] then norm_comps initial_slashes comps (butlast new_comps)
      else norm_comps initial_slashes comps new_comps)"

definition posix_normpath :: "string \<Rightarrow> string" where
  "posix_normpath path =
     (if path = [] then ''.''
      else
        let initial_slashes =
              (if prefix ''/'' path
               then (if prefix ''//'' path \<and> \<not> prefix ''///'' path then 2 else 1)
               else (0::nat));
            comps = norm_comps (initial_slashes \<noteq> 0) (split_slash [] path) [];
            p = replicate initial_slashes (CHR ''/'') @ join_slash comps
        in if p = [] then ''.'' else p)"

text \<open>\<open>os.path.relpath(path, start)\<close> in the working directory \<open>cwd\<close>.\<close>

fun common_prefix :: "'a list \<Rightarrow> 'a list \<Rightarrow> nat" where
  "common_prefix (x # xs) (y # ys) = (if x = y then Suc (common_prefix xs ys) else 0)"
| "common_prefix xs ys = 0"

definition posix_relpath :: "string \<Rightarrow> string \<Rightarrow> string \<Rightarrow> string" where
  "posix_relpath cwd path start =
     (let start_list = filter (\<lambda>x. x \<noteq> [])
                         (split_slash [] (posix_normpath (posix_join cwd start)));
          path_list = filter (\<lambda>x. x \<noteq> [])
                        (split_slash [] (posix_normpath (posix_join cwd path)));
          i = common_prefix start_list path_list;
          rel_list = replicate (length start_list - i) ''..'' @ drop i path_list
      in if rel_list = [] then ''.'' else fold (\<lambda>x acc. posix_join acc x) (tl rel_list) (hd rel_list))"

text \<open>Decimal numerals: an optional sign, digits, and an optional point with digits.\<close>

definition digit_of :: "char \<Rightarrow> nat option" where
  "digit_of c =
     (let n = (of_char c :: nat) in if 48 \<le> n \<and> n \<le> 57 then Some (n - 48) else None)"

fun digits_value :: "nat \<Rightarrow> string \<Rightarrow> nat option" where
  "digits_value acc [] = Some acc"
| "digits_value acc (c # cs) =
     (case digit_of c of None \<Rightarrow> None | Some d \<Rightarrow> digits_value (10 * acc + d) cs)"

definition unsigned_decimal :: "string \<Rightarrow> real option" where
  "unsigned_decimal s =
     (let ip = takeWhile (\<lambda>c. c \<noteq> CHR ''.'') s;
          rest = dropWhile (\<lambda>c. c \<noteq> CHR ''.'') s;
          fp = (if rest = [] then [] else tl rest)
      in if ip = [] \<and> fp = [] then None
         else (case (digits_value 0 ip, digits_value 0 fp) of
                 (Some a, Some b) \<Rightarrow> Some (real a + real b / 10 ^ length fp)
               | _ \<Rightarrow> None))"

definition decimal :: "string \<Rightarrow> real option" where
  "decimal s =
     (case s of
        [] \<Rightarrow> None
      | c # cs \<Rightarrow>
          if c = CHR ''-'' then map_option uminus (unsigned_decimal cs)
          else if c = CHR ''+'' then unsigned_decimal cs
          else unsigned_decimal s)"

text \<open>\<open>'%f' % x\<close> and \<open>'%i' % x\<close>.\<close>

definition digit_char :: "nat \<Rightarrow> char" where
  "digit_char d = ''0123456789'' ! d"

fun nat_digits :: "nat \<Rightarrow> nat \<Rightarrow> string" where
  "nat_digits 0 n = []"
| "nat_digits (Suc k) n = nat_digits k (n div 10) @ [digit_char (n mod 10)]"

definition nat_str :: "nat \<Rightarrow> string" where
  "nat_str n = (let ds = dropWhile (\<lambda>c. c = CHR ''0'') (nat_digits 20 n)
                in if ds = [] then ''0'' else ds)"

definition fixed6 :: "real \<Rightarrow> string" where
  "fixed6 x =
     (let n = nat \<lfloor>\<bar>x\<bar> * 1000000 + 1 / 2\<rfloor>
      in (if x < 0 then ''-'' else []) @ nat_str (n div 1000000) @ ''.''
         @ nat_digits 6 (n mod 1000000))"

definition truncated :: "real \<Rightarrow> string" where
  "truncated x = (if x < 0 then ''-'' else []) @ nat_str (nat \<lfloor>\<bar>x\<bar>\<rfloor>)"

text \<open>The sample platform: a tool that leaves the files as they are, a plot that does
  not fail, field names taken as they stand, and a regular expression matched as a
  literal prefix. A cell that is not a decimal numeral is NaN for numpy, which the reals
  do not have: the sample converter gives 0 for it, and no sample file has such a cell.\<close>

definition sample_env :: env where
  "sample_env =
     \<lparr>py_float = decimal,
      np_float = (\<lambda>s. case decimal s of None \<Rightarrow> 0 | Some x \<Rightarrow> x),
      validate_names = (\<lambda>names. names),
      format_f = fixed6,
      format_i = truncated,
      re_match = (\<lambda>p s. prefix p s),
      path_isabs = posix_isabs,
      path_join = posix_join,
      path_split = posix_split,
      path_normpath = posix_normpath,
      path_relpath = posix_relpath ''/'',
      raw_lines = (\<lambda>f. []),
      run_tool = (\<lambda>cmd F. Some F),
      plot_rra_gait_info = (\<lambda>d F. None)\<rparr>"

text \<open>The sample files: a setup file, its tasks file with the weights 10 and 4, and
  the tool's output, in which \<open>pelvis_tx\<close> peaks at 0.02 and \<open>hip_flexion_r\<close> at 0.\<close>

definition sample_setup :: xml where
  "sample_setup =
     Element ''OpenSimDocument'' [] None
       [Element ''RRATool'' [(''name'', ''subject01'')] None
          [Element ''task_set_file'' [] (Some '' tasks.xml '') [],
           Element ''results_directory'' [] (Some ''results'') []]]"

definition sample_tasks :: xml where
  "sample_tasks =
     Element ''OpenSimDocument'' [] None
       [Element ''CMC_TaskSet'' [(''name'', ''tasks'')] None
          [Element ''objects'' [] None
             [Element ''CMC_Joint'' [(''name'', ''pelvis_tx'')] None
                [Element ''weight'' [] (Some ''10.0'') []],
              Element ''CMC_Joint'' [(''name'', ''hip_flexion_r'')] None
                [Element ''weight'' [] (Some ''4'') []]]]]"

definition sample_pErr :: "string list" where
  "sample_pErr =
     [''Kinematics errors'', ''nRows=2'', ''endheader'',
      ''time pelvis_tx hip_flexion_r'',
      ''0.0 0.02 0.0'',
      ''0.1 -0.01 0.0'']"

definition sample_files :: fs where
  "sample_files =
     [''setup.xml'' \<mapsto> XmlFile sample_setup,
      ''tasks.xml'' \<mapsto> XmlFile sample_tasks,
      ''results/subject01_pErr.sto'' \<mapsto> TextFile sample_pErr]"

definition sample_world :: world where
  "sample_world = \<lparr>files = sample_files, events = []\<rparr>"

section \<open>The specification's words, as definitions\<close>

text \<open>
  The order in which the specification says the bundler looks for a referenced file:
  the literal path, the path with the caller's substitutions, that path with backslashes
  turned into slashes, and three paths joined to the directory of the referencing file
  (the path as it is, stripped on the left, stripped on the right).
\<close>

definition spec_search_order ::
    "env \<Rightarrow> (string \<times> string) list option \<Rightarrow> string \<Rightarrow> string \<Rightarrow> string list" where
  "spec_search_order E replace file_containing_path literal =
     (let substituted = (case replace of
                           None \<Rightarrow> literal
                         | Some items \<Rightarrow> fold (\<lambda>(key, val) p. str_replace key val p) items literal);
          normalized = str_replace [CHR 0x5C] ''/'' substituted;
          dir = fst (path_split E file_containing_path)
      in [literal, substituted, normalized,
          path_normpath E (path_join E dir normalized),
          path_normpath E (path_join E dir (lstrip normalized)),
          path_normpath E (path_join E dir (rstrip normalized))])"

text \<open>Two setup documents: one with two \<open>model_file\<close> elements, one with none.\<close>

definition two_models :: xml where
  "two_models =
     Element ''OpenSimDocument'' [] None
       [Element ''CMCTool'' [] None
          [Element ''model_file'' [] (Some ''a.osim'') [],
           Element ''model_file'' [] (Some ''b.osim'') []]]"

definition no_fields :: xml where
  "no_fields = Element ''OpenSimDocument'' [] None [Element ''CMCTool'' [] None []]"

text \<open>A setup file for RRA that names its task set and says nothing else.\<close>

definition setup_without_results :: xml where
  "setup_without_results =
     Element ''OpenSimDocument'' [] None
       [Element ''RRATool'' [(''name'', ''subject01'')] None
          [Element ''task_set_file'' [] (Some ''tasks.xml'') []]]"

text \<open>A setup file that refers to its model with a backslash and a trailing blank, and
  a file system that has the model next to the setup file.\<close>

definition bundle_setup :: xml where
  "bundle_setup =
     Element ''OpenSimDocument'' [] None
       [Element ''CMCTool'' [] None
          [Element ''model_file'' [] (Some (''models'' @ [CHR 0x5C] @ ''gait.osim '')) []]]"

definition bundle_files :: fs where
  "bundle_files = [''/data/models/gait.osim'' \<mapsto> TextFile []]"

text \<open>
  The peak error of a task as the specification words it: the largest absolute value of
  the task's column, converted to degrees for a rotational task, and multiplied by 100
  for a translational task whose name starts with \<open>pelvis_t\<close>. Which tasks are
  translations is a parameter; in OpenSim's models the translations of the pelvis are
  \<open>pelvis_tx\<close>, \<open>pelvis_ty\<close> and \<open>pelvis_tz\<close>, and \<open>pelvis_tilt\<close> is a rotation.
\<close>

definition claimed_peak_error :: "(string \<Rightarrow> bool) \<Rightarrow> string \<Rightarrow> real list \<Rightarrow> real" where
  "claimed_peak_error translational name col =
     (if translational name \<and> prefix ''pelvis_t'' name then 100 * Max (abs ` set col)
      else Max (abs ` set col) * 180 / pi)"

definition pelvis_translation :: "string \<Rightarrow> bool" where
  "pelvis_translation name = (name \<in> set [''pelvis_tx'', ''pelvis_ty'', ''pelvis_tz''])"

text \<open>An output of the tool in which the rotation \<open>pelvis_tilt\<close> peaks at 0.016 radians.\<close>

definition tilt_table :: table where
  "tilt_table = [(''time'', [0, 0.1]), (''pelvis_tilt'', [0.016, - 0.01])]"

text \<open>The errors of the tracked tasks: of the columns whose name is in \<open>task_names\<close>.\<close>

definition tracked_errors :: "table \<Rightarrow> string list \<Rightarrow> real set" where
  "tracked_errors T names =
     (\<lambda>(name, col). this_err_value name col) ` {(name, col) \<in> set T. name \<in> set names}"

text \<open>
  The weight update as the specification words it: \<open>new_weight = old_weight + 0.5 *
  increment * old_weight\<close>, where \<open>increment = error - midpoint\<close> above the range,
  \<open>increment = -|midpoint - error|\<close> below it, and the midpoint is the mean of the two
  thresholds.
\<close>

definition spec_increment :: "real \<Rightarrow> real \<Rightarrow> real \<Rightarrow> real" where
  "spec_increment lo hi err =
     (if err > hi then err - (lo + hi) / 2 else - \<bar>(lo + hi) / 2 - err\<bar>)"

definition spec_new_weight :: "real \<Rightarrow> real \<Rightarrow> real \<Rightarrow> real \<Rightarrow> real" where
  "spec_new_weight lo hi err old_weight =
     old_weight + 0.5 * spec_increment lo hi err * old_weight"

text \<open>
  The weight at position \<open>i\<close> of the array once the columns \<open>cols\<close> have been
  visited, by the specification: the updated weight when the task at \<open>i\<close> is one of
  the columns, \<open>i\<close> is the position \<open>task_names.index\<close> gives for it and its error is
  out of range; the old weight otherwise.
\<close>

definition spec_weight_after ::
    "real \<Rightarrow> real \<Rightarrow> string list \<Rightarrow> table \<Rightarrow> string list \<Rightarrow> real list \<Rightarrow> nat \<Rightarrow> real" where
  "spec_weight_after lo hi names T cols ws i =
     (let c = names ! i; e = this_err_value c (the (map_of T c)) in
      if c \<in> set cols \<and> list_index names c = Some i \<and> (e > hi \<or> e < lo)
      then spec_new_weight lo hi e (ws ! i) else ws ! i)"

text \<open>The errors of the tracked columns among \<open>cols\<close>, in the order of \<open>cols\<close>, and the
  error an accumulator of \<open>max_error\<close> or \<open>min_error\<close> holds.\<close>

definition tracked_error_list :: "table \<Rightarrow> string list \<Rightarrow> string list \<Rightarrow> real list" where
  "tracked_error_list T names cols =
     map (\<lambda>c. this_err_value c (the (map_of T c))) (filter (\<lambda>c. c \<in> set names) cols)"

definition acc_set :: "(real \<times> string) option \<Rightarrow> real set" where
  "acc_set acc = (case acc of None \<Rightarrow> {} | Some (a, n) \<Rightarrow> {a})"

text \<open>The table \<open>storage2numpy\<close> reads from the sample output of the tool, and the
  variables of \<open>select_rra_task_weights\<close> when the loop starts on the sample files, for
  the tasks \<open>pelvis_tx\<close> and \<open>hip_flexion_r\<close> and the thresholds 1.0 and 1.5.\<close>

definition sample_table :: table where
  "sample_table =
     [(''time'', [0, 1 / 10]), (''pelvis_tx'', [1 / 50, - (1 / 100)]),
      (''hip_flexion_r'', [0, 0])]"

definition sample_ctx :: rra_ctx where
  "sample_ctx =
     \<lparr>task_names = [''pelvis_tx'', ''hip_flexion_r''], tasks_fpath = ''tasks.xml'',
      pErr_fpath = ''results/subject01_pErr.sto'',
      fig_fpath = ''residuals_and_kinematics_error_auto_rra.pdf'',
      rra_command = [''rra'', ''-S'', ''setup.xml''],
      min_max_err = 1, max_max_err = 3 / 2, avg_max_err = 5 / 4\<rparr>"

definition sample_state :: loop_state where
  "sample_state =
     \<lparr>task_weights = [10, 4], pErr = sample_table, maxerr = 2, minerr = 0, iter_count = 0\<rparr>"

text \<open>The sample tasks file and the sample world after the weights 13.75 and 1.5 have
  been written, after the tool has run, and after the figure has been saved.\<close>

definition sample_tasks_written :: xml where
  "sample_tasks_written =
     Element ''OpenSimDocument'' [] None
       [Element ''CMC_TaskSet'' [(''name'', ''tasks'')] None
          [Element ''objects'' [] None
             [Element ''CMC_Joint'' [(''name'', ''pelvis_tx'')] None
                [Element ''weight'' [] (Some ''13.750000'') []],
              Element ''CMC_Joint'' [(''name'', ''hip_flexion_r'')] None
                [Element ''weight'' [] (Some ''1.500000'') []]]]]"

definition sample_world_written :: world where
  "sample_world_written =
     \<lparr>files = sample_files(''tasks.xml'' \<mapsto> XmlFile sample_tasks_written),
      events = [Wrote ''tasks.xml'' [55 / 4, 3 / 2]]\<rparr>"

definition sample_world_run :: world where
  "sample_world_run =
     \<lparr>files = sample_files(''tasks.xml'' \<mapsto> XmlFile sample_tasks_written),
      events = [Wrote ''tasks.xml'' [55 / 4, 3 / 2], Called [''rra'', ''-S'', ''setup.xml'']]\<rparr>"

definition sample_world_end :: world where
  "sample_world_end =
     \<lparr>files = sample_files(''tasks.xml'' \<mapsto> XmlFile sample_tasks_written,
                ''residuals_and_kinematics_error_auto_rra.pdf'' \<mapsto> Figure),
      events = [Wrote ''tasks.xml'' [55 / 4, 3 / 2], Called [''rra'', ''-S'', ''setup.xml''],
                Saved ''residuals_and_kinematics_error_auto_rra.pdf'']\<rparr>"

section \<open>Storage files: what \<open>storage2numpy\<close> reads\<close>

lemma find_endheader_None:
  "(\<forall>l \<in> set lines. \<not> sublist ''endheader'' l) \<Longrightarrow> find_endheader i lines = None"
  by (induction lines arbitrary: i) auto

text \<open>
  Claim C7, as amended. When no line of the file contains \<open>endheader\<close>, the loop of
  \<open>storage2numpy\<close> reads to the end of the file and never assigns the line number;
  the function then raises \<open>UnboundLocalError\<close> (a \<open>NameError\<close>) where it reads that
  variable, and returns no array.
\<close>

theorem storage2numpy_without_sentinel:
  assumes "\<forall>l \<in> set lines. \<not> sublist ''endheader'' l"
  shows "storage2numpy_lines E lines = Inl UnboundLocalError
       \<and> (F p = Some (TextFile lines) \<longrightarrow> storage2numpy E F p = Inl UnboundLocalError)"
  using find_endheader_None [OF assms]
  by (simp add: storage2numpy_lines_def storage2numpy_def open_lines_def bind_def)

theorem storage2numpy_without_sentinel_witness:
  "storage2numpy sample_env [''walk.sto'' \<mapsto> TextFile [''time knee'', ''0.0 0.1'']] ''walk.sto''
     = Inl UnboundLocalError"
proof -
  have "\<forall>l \<in> set [''time knee'', ''0.0 0.1'']. \<not> sublist ''endheader'' l"
    by (simp add: sublist_code)
  from storage2numpy_without_sentinel [OF this, of sample_env
      "[''walk.sto'' \<mapsto> TextFile [''time knee'', ''0.0 0.1'']]" "''walk.sto''"]
  show ?thesis by simp
qed

text \<open>
  Claim C7 as the specification states it says that such a file raises no error and
  gives a malformed array. On the two lines \<open>time knee\<close> and \<open>0.0 0.1\<close> the function
  raises.
\<close>

theorem storage2numpy_raises_counterexample:
  "storage2numpy_lines sample_env [''time knee'', ''0.0 0.1''] = Inl UnboundLocalError"
  by (simp add: storage2numpy_lines_def sublist_code)

section \<open>Setup documents: fields\<close>

lemma set_text_Element [simp]:
  "set_text v (Element t a x cs) = Element t a (Some v) cs"
  by (simp add: set_text_def)

lemma update_first_none:
  "filter (\<lambda>e. tag e = t) (iter_forest es) = [] \<Longrightarrow> update_first t g es = None"
  by (induction t g es rule: update_first.induct) (auto split: if_splits)

lemma update_first_set_text:
  "filter (\<lambda>e. tag e = t) (iter_forest es) = e # rest \<Longrightarrow>
   \<exists>es'. update_first t (\<lambda>e. Inr (set_text v e)) es = Some (Inr es')
       \<and> filter (\<lambda>e. tag e = t) (iter_forest es') = set_text v e # rest"
proof (induction es arbitrary: e rest rule: iter_forest.induct)
  case 1
  then show ?case by simp
next
  case (2 t' a x cs es)
  show ?case
  proof (cases "t' = t")
    case True
    with "2.prems" show ?thesis by (auto simp: bind_def)
  next
    case False
    show ?thesis
    proof (cases "filter (\<lambda>e. tag e = t) (iter_forest cs)")
      case Nil
      with False "2.prems" have es: "filter (\<lambda>e. tag e = t) (iter_forest es) = e # rest"
        by simp
      from "2.IH"(2) [OF es] obtain es' where
        "update_first t (\<lambda>e. Inr (set_text v e)) es = Some (Inr es')"
        "filter (\<lambda>e. tag e = t) (iter_forest es') = set_text v e # rest" by blast
      with False Nil update_first_none [OF Nil] show ?thesis
        by (auto simp: bind_def)
    next
      case (Cons e1 r1)
      with False "2.prems" have e: "e1 = e" and rest: "rest = r1 @ filter (\<lambda>e. tag e = t) (iter_forest es)"
        by auto
      from "2.IH"(1) [OF Cons] obtain cs' where
        "update_first t (\<lambda>e. Inr (set_text v e)) cs = Some (Inr cs')"
        "filter (\<lambda>e. tag e = t) (iter_forest cs') = set_text v e1 # r1" by blast
      with False e rest show ?thesis
        by (auto simp: bind_def)
    qed
  qed
qed

lemma field_text_none: "findall doc t = [] \<Longrightarrow> field_text doc t = Inl IndexError"
  by (simp add: field_text_def item0_def bind_def)

lemma field_text_first: "findall doc t = e # rest \<Longrightarrow> field_text doc t = Inr (text' e)"
  by (simp add: field_text_def item0_def bind_def)

lemma set_field_none: "findall doc t = [] \<Longrightarrow> set_field doc t v = Inl IndexError"
  by (simp add: set_field_def findall_def update_first_none)

lemma set_field_first:
  assumes "findall doc t = e # rest"
  shows "\<exists>doc'. set_field doc t v = Inr doc' \<and> findall doc' t = set_text v e # rest"
proof -
  from assms have "filter (\<lambda>e. tag e = t) (iter_forest (children doc)) = e # rest"
    by (simp add: findall_def)
  from update_first_set_text [OF this, of v] show ?thesis
    by (auto simp: set_field_def findall_def bind_def)
qed

lemma edit_field_none:
  "old key = Some (Some p) \<Longrightarrow> p \<noteq> [] \<Longrightarrow> findall doc t = [] \<Longrightarrow>
   edit_field E old do_not_copy kwargs destination doc t key = Inl IndexError"
  by (simp add: edit_field_def set_field_none Let_def)

lemma read_setup_no_task_set_file:
  "etree_parse F setup_fpath = Inr rra \<Longrightarrow> findall rra ''task_set_file'' = [] \<Longrightarrow>
   read_setup E F setup_fpath names omit mn mx exe = Inl IndexError"
  by (simp add: read_setup_def bind_def item0_def Let_def)

lemma select_no_task_set_file:
  "files w setup_fpath = Some (XmlFile rra) \<Longrightarrow> findall rra ''task_set_file'' = [] \<Longrightarrow>
   select_rra_task_weights E setup_fpath names omit mn mx exe w = Some (Inl IndexError, w)"
  by (simp add: select_rra_task_weights_def before_loop_def read_setup_no_task_set_file etree_parse_def)

lemma select_no_results_directory:
  assumes "files w setup_fpath = Some (XmlFile doc)"
    and "findall doc ''task_set_file'' = e1 # r1" and "text' e1 = Some s1"
    and "findall doc ''results_directory'' = []
         \<or> (findall doc ''results_directory'' = e2 # r2 \<and> text' e2 = Some s2
              \<and> findall doc ''RRATool'' = [])"
  shows "select_rra_task_weights E setup_fpath (Some ns) omit mn mx exe w
           = Some (Inl IndexError, w)"
proof -
  have "read_setup E (files w) setup_fpath (Some ns) omit mn mx exe = Inl IndexError"
    using assms
    by (auto simp: read_setup_def etree_parse_def item0_def text_strip_def bind_def Let_def)
  then show ?thesis
    by (simp add: select_rra_task_weights_def before_loop_def)
qed

lemma resolve_path_order:
  assumes "lstrip path0 \<noteq> []"
  shows "resolve_path E F replace fcp (Some path0) =
     (case List.find (path_exists F) (spec_search_order E replace fcp path0) of
        Some p \<Rightarrow> Inr (Some p)
      | None \<Rightarrow> Inl (Exception (''Paths '' @ spec_search_order E replace fcp path0 ! 2 @ '' and ''
                  @ spec_search_order E replace fcp path0 ! 5 @ '' do not exist.'')))"
  using assms by (simp add: resolve_path_def spec_search_order_def Let_def)

text \<open>
  Claim C9. The fields of a setup document are read and written through the first
  element \<open>findall\<close> gives, and the number of matches is not checked. When no element
  has the tag, reading the field (\<open>field_text\<close>, in \<open>valid_path\<close>), overwriting it
  (\<open>set_field\<close>, in \<open>edit_field\<close>) and \<open>select_rra_task_weights\<close> on a setup file
  without \<open>task_set_file\<close>, \<open>results_directory\<close> or \<open>RRATool\<close> raise \<open>IndexError\<close>.
  When several elements have the tag,
  the first in document order is read or overwritten, the others are left as they are,
  and no error is raised.
\<close>

theorem field_access_takes_first_match:
  "(findall doc t = [] \<longrightarrow>
      field_text doc t = Inl IndexError
    \<and> valid_path E F replace fcp doc t = Inl IndexError
    \<and> set_field doc t v = Inl IndexError
    \<and> (old key = Some (Some p) \<and> p \<noteq> [] \<longrightarrow>
         edit_field E old do_not_copy kwargs destination doc t key = Inl IndexError))
 \<and> (findall doc t = e # rest \<longrightarrow>
      field_text doc t = Inr (text' e)
    \<and> valid_path E F replace fcp doc t = resolve_path E F replace fcp (text' e)
    \<and> (\<exists>doc'. set_field doc t v = Inr doc' \<and> findall doc' t = set_text v e # rest))
 \<and> (files w setup_fpath = Some (XmlFile doc) \<and> findall doc ''task_set_file'' = [] \<longrightarrow>
      select_rra_task_weights E setup_fpath names omit mn mx exe w = Some (Inl IndexError, w))
 \<and> (files w setup_fpath = Some (XmlFile doc)
      \<and> findall doc ''task_set_file'' = e1 # r1 \<and> text' e1 = Some s1
      \<and> (findall doc ''results_directory'' = []
           \<or> (findall doc ''results_directory'' = e2 # r2 \<and> text' e2 = Some s2
                \<and> findall doc ''RRATool'' = [])) \<longrightarrow>
      select_rra_task_weights E setup_fpath (Some ns) omit mn mx exe w
        = Some (Inl IndexError, w))"
proof -
  have "select_rra_task_weights E setup_fpath (Some ns) omit mn mx exe w
        = Some (Inl IndexError, w)"
    if "files w setup_fpath = Some (XmlFile doc)
      \<and> findall doc ''task_set_file'' = e1 # r1 \<and> text' e1 = Some s1
      \<and> (findall doc ''results_directory'' = []
           \<or> (findall doc ''results_directory'' = e2 # r2 \<and> text' e2 = Some s2
                \<and> findall doc ''RRATool'' = []))"
    using that select_no_results_directory [of w setup_fpath doc e1 r1 s1 e2 r2 s2] by blast
  then show ?thesis
    using set_field_first [of doc t e rest v]
    by (auto simp: field_text_none field_text_first set_field_none edit_field_none
          select_no_task_set_file valid_path_def bind_def)
qed

theorem field_access_takes_first_match_witness:
  "field_text no_fields ''model_file'' = Inl IndexError
 \<and> valid_path sample_env Map.empty None ''setup.xml'' no_fields ''model_file'' = Inl IndexError
 \<and> set_field no_fields ''model_file'' ''c.osim'' = Inl IndexError
 \<and> select_rra_task_weights sample_env ''setup.xml'' None None 1 1.5 ''rra''
      \<lparr>files = [''setup.xml'' \<mapsto> XmlFile no_fields], events = []\<rparr>
    = Some (Inl IndexError, \<lparr>files = [''setup.xml'' \<mapsto> XmlFile no_fields], events = []\<rparr>)
 \<and> select_rra_task_weights sample_env ''setup.xml'' (Some [''pelvis_tx'']) None 1 1.5 ''rra''
      \<lparr>files = [''setup.xml'' \<mapsto> XmlFile setup_without_results], events = []\<rparr>
    = Some (Inl IndexError,
            \<lparr>files = [''setup.xml'' \<mapsto> XmlFile setup_without_results], events = []\<rparr>)
 \<and> field_text two_models ''model_file'' = Inr (Some ''a.osim'')
 \<and> (\<exists>doc'. set_field two_models ''model_file'' ''c.osim'' = Inr doc'
        \<and> findall doc' ''model_file''
            = [Element ''model_file'' [] (Some ''c.osim'') [],
               Element ''model_file'' [] (Some ''b.osim'') []])"
proof -
  have none: "findall no_fields ''model_file'' = []"
    and none': "findall no_fields ''task_set_file'' = []"
    by (simp_all add: findall_def no_fields_def)
  have ts: "findall setup_without_results ''task_set_file''
      = Element ''task_set_file'' [] (Some ''tasks.xml'') [] # []"
    and rd: "findall setup_without_results ''results_directory'' = []"
    by (simp_all add: findall_def setup_without_results_def)
  have two: "findall two_models ''model_file''
      = Element ''model_file'' [] (Some ''a.osim'') [] # [Element ''model_file'' [] (Some ''b.osim'') []]"
    by (simp add: findall_def two_models_def)
  from field_access_takes_first_match [where doc = no_fields and t = "''model_file''"
      and E = sample_env and F = Map.empty and replace = None and fcp = "''setup.xml''"
      and v = "''c.osim''" and setup_fpath = "''setup.xml''"
      and w = "\<lparr>files = [''setup.xml'' \<mapsto> XmlFile no_fields], events = []\<rparr>"
      and names = None and omit = None and mn = 1 and mx = "1.5" and exe = "''rra''"]
    field_access_takes_first_match [where doc = setup_without_results
      and setup_fpath = "''setup.xml''"
      and w = "\<lparr>files = [''setup.xml'' \<mapsto> XmlFile setup_without_results], events = []\<rparr>"
      and ?e1.0 = "Element ''task_set_file'' [] (Some ''tasks.xml'') []" and ?r1.0 = "[]"
      and ?s1.0 = "''tasks.xml''" and E = sample_env and ns = "[''pelvis_tx'']" and omit = None
      and mn = 1 and mx = "1.5" and exe = "''rra''"]
    field_access_takes_first_match [where doc = two_models and t = "''model_file''"
      and v = "''c.osim''" and e = "Element ''model_file'' [] (Some ''a.osim'') []"
      and rest = "[Element ''model_file'' [] (Some ''b.osim'') []]"]
  show ?thesis
    using none none' two ts rd by simp
qed

section \<open>The input bundler: the search for a referenced file\<close>

lemma find_None_set: "(List.find P xs = None) = (\<forall>x \<in> set xs. \<not> P x)"
  by (induction xs) auto

text \<open>
  Claim C8. For a field that has text other than whitespace, \<open>valid_path\<close> returns the
  first path that exists among, in this order: the literal path; the path with the
  caller's substitutions; that path with backslashes replaced by slashes; and that path,
  as it is, stripped on the left and stripped on the right, each joined to the directory
  of the referencing file and normalised. It raises exactly when none of the six exists.
\<close>

theorem valid_path_search_order:
  assumes "findall doc t = e # rest" and "text' e = Some literal" and "lstrip literal \<noteq> []"
  shows "(case List.find (path_exists F) (spec_search_order E replace fcp literal) of
            Some p \<Rightarrow> valid_path E F replace fcp doc t = Inr (Some p)
          | None \<Rightarrow> (\<exists>msg. valid_path E F replace fcp doc t = Inl (Exception msg)))
       \<and> ((\<exists>err. valid_path E F replace fcp doc t = Inl err)
            = (\<forall>p \<in> set (spec_search_order E replace fcp literal). \<not> path_exists F p))"
proof -
  have v: "valid_path E F replace fcp doc t = resolve_path E F replace fcp (Some literal)"
    using assms(1,2) by (simp add: valid_path_def field_text_first bind_def)
  show ?thesis
    unfolding v resolve_path_order [OF assms(3)] find_None_set [symmetric]
    by (simp split: option.split)
qed

theorem valid_path_search_order_witness:
  "spec_search_order sample_env None ''/data/setup.xml'' (''models'' @ [CHR 0x5C] @ ''gait.osim '')
     = [''models'' @ [CHR 0x5C] @ ''gait.osim '', ''models'' @ [CHR 0x5C] @ ''gait.osim '',
        ''models/gait.osim '', ''/data/models/gait.osim '', ''/data/models/gait.osim '',
        ''/data/models/gait.osim'']
 \<and> valid_path sample_env bundle_files None ''/data/setup.xml'' bundle_setup ''model_file''
     = Inr (Some ''/data/models/gait.osim'')
 \<and> (\<exists>msg. valid_path sample_env Map.empty None ''/data/setup.xml'' bundle_setup ''model_file''
     = Inl (Exception msg))"
proof -
  have f: "findall bundle_setup ''model_file''
      = Element ''model_file'' [] (Some (''models'' @ [CHR 0x5C] @ ''gait.osim '')) [] # []"
    by (simp add: findall_def bundle_setup_def)
  have t: "text' (Element ''model_file'' [] (Some (''models'' @ [CHR 0x5C] @ ''gait.osim '')) [])
      = Some (''models'' @ [CHR 0x5C] @ ''gait.osim '')" by simp
  have l: "lstrip (''models'' @ [CHR 0x5C] @ ''gait.osim '') \<noteq> []"
    by (simp add: lstrip_def is_space_def)
  have s: "spec_search_order sample_env None ''/data/setup.xml'' (''models'' @ [CHR 0x5C] @ ''gait.osim '')
     = [''models'' @ [CHR 0x5C] @ ''gait.osim '', ''models'' @ [CHR 0x5C] @ ''gait.osim '',
        ''models/gait.osim '', ''/data/models/gait.osim '', ''/data/models/gait.osim '',
        ''/data/models/gait.osim'']"
    by (simp add: spec_search_order_def sample_env_def str_replace_def posix_split_def posix_join_def
        posix_normpath_def lstrip_def rstrip_def is_space_def Let_def suffix_to_prefix)
  from valid_path_search_order [OF f t l, where F = bundle_files and E = sample_env
         and replace = None and fcp = "''/data/setup.xml''"]
       valid_path_search_order [OF f t l, where F = Map.empty and E = sample_env
         and replace = None and fcp = "''/data/setup.xml''"]
  show ?thesis unfolding s
    by (simp add: path_exists_def bundle_files_def)
qed

section \<open>Storage files: the header row and the data\<close>

lemma find_endheader_first:
  "k < length lines \<Longrightarrow> sublist ''endheader'' (lines ! k) \<Longrightarrow>
   (\<forall>j<k. \<not> sublist ''endheader'' (lines ! j)) \<Longrightarrow>
   find_endheader i lines = Some (i + k + 1)"
proof (induction lines arbitrary: i k)
  case Nil
  then show ?case by simp
next
  case (Cons l ls)
  show ?case
  proof (cases k)
    case 0
    with Cons.prems show ?thesis by simp
  next
    case (Suc k')
    with Cons.prems have "\<not> sublist ''endheader'' l" by auto
    moreover from Suc Cons.prems have "find_endheader (i + 1) ls = Some (i + 1 + k' + 1)"
      by (intro Cons.IH) auto
    ultimately show ?thesis using Suc by simp
  qed
qed

lemma storage2numpy_lines_skip:
  assumes "k < length lines" "sublist ''endheader'' (lines ! k)"
    "\<forall>j<k. \<not> sublist ''endheader'' (lines ! j)"
  shows "storage2numpy_lines E lines = genfromtxt E lines (Suc k)"
  using find_endheader_first [OF assms, of 0] by (simp add: storage2numpy_lines_def)

lemma genfromtxt_table:
  assumes "n < length lines" "split_line (header_text (lines ! n)) \<noteq> []"
    and "\<forall>l \<in> set (drop (Suc n) lines).
           split_line l \<noteq> [] \<longrightarrow>
           length (split_line l) = length (split_line (header_text (lines ! n)))"
  shows "genfromtxt E lines n =
     Inr (zip (validate_names E (split_line (header_text (lines ! n))))
            (map (\<lambda>i. map (\<lambda>r. np_float E (r ! i))
                          (filter (\<lambda>v. v \<noteq> []) (map split_line (drop (Suc n) lines))))
               [0 ..< length (split_line (header_text (lines ! n)))]))"
proof -
  from assms(1) have d: "drop n lines = lines ! n # drop (Suc n) lines"
    by (simp add: Cons_nth_drop_Suc)
  show ?thesis
    using assms(2,3) by (auto simp: genfromtxt_def d Let_def)
qed

text \<open>The table read from the lines of a file whose first line with \<open>endheader\<close> is
  row \<open>k\<close>.\<close>

lemma storage2numpy_lines_header_row:
  assumes "k < length lines" "sublist ''endheader'' (lines ! k)"
    "\<forall>j<k. \<not> sublist ''endheader'' (lines ! j)"
    and "Suc k < length lines" "split_line (header_text (lines ! Suc k)) \<noteq> []"
    and "\<forall>l \<in> set (drop (k + 2) lines).
           split_line l \<noteq> [] \<longrightarrow>
           length (split_line l) = length (split_line (header_text (lines ! Suc k)))"
    and "length (validate_names E (split_line (header_text (lines ! Suc k))))
           = length (split_line (header_text (lines ! Suc k)))"
    and "distinct (validate_names E (split_line (header_text (lines ! Suc k))))"
  shows "\<exists>T. storage2numpy_lines E lines = Inr T
     \<and> map fst T = validate_names E (split_line (header_text (lines ! Suc k)))
     \<and> (\<forall>i < length T.
           column T (fst (T ! i))
             = Inr (map (\<lambda>r. np_float E (r ! i))
                      (filter (\<lambda>v. v \<noteq> []) (map split_line (drop (k + 2) lines)))))"
proof -
  let ?names = "validate_names E (split_line (header_text (lines ! Suc k)))"
  let ?n = "length (split_line (header_text (lines ! Suc k)))"
  let ?rows = "filter (\<lambda>v. v \<noteq> []) (map split_line (drop (k + 2) lines))"
  let ?cols = "map (\<lambda>i. map (\<lambda>r. np_float E (r ! i)) ?rows) [0 ..< ?n]"
  have eq: "storage2numpy_lines E lines = Inr (zip ?names ?cols)"
    using storage2numpy_lines_skip [OF assms(1-3)] genfromtxt_table [OF assms(4,5), of E] assms(6)
    by simp
  have len: "length ?names = length ?cols" using assms(7) by simp
  have "map fst (zip ?names ?cols) = ?names" using len by (simp add: map_fst_zip)
  moreover have "column (zip ?names ?cols) (fst (zip ?names ?cols ! i)) = Inr (map (\<lambda>r. np_float E (r ! i)) ?rows)"
    if "i < length (zip ?names ?cols)" for i
  proof -
    from that len have i: "i < length ?cols" by simp
    then have "map_of (zip ?names ?cols) (?names ! i) = Some (?cols ! i)"
      using len assms(8) by (intro map_of_zip_nth) auto
    with i len show ?thesis by (simp add: column_def)
  qed
  ultimately show ?thesis using eq by blast
qed

text \<open>
  Claim C6. When row \<open>k\<close> (counted from 0) is the first line of the file that contains
  \<open>endheader\<close>, \<open>storage2numpy\<close> skips the rows up to \<open>k\<close>, takes the tokens of row
  \<open>k + 1\<close> as the column names and the rows after it as whitespace-delimited numbers.
  For a file whose row \<open>k + 1\<close> has a token and whose later rows have as many tokens
  as it, the result is a table with those names, and indexing it by the \<open>i\<close>-th name
  gives the \<open>i\<close>-th token of every non-blank data row, converted to a number.
\<close>

theorem storage2numpy_header_row:
  assumes "F storage_file = Some (TextFile lines)"
    and "k < length lines" "sublist ''endheader'' (lines ! k)"
    "\<forall>j<k. \<not> sublist ''endheader'' (lines ! j)"
    and "Suc k < length lines" "split_line (header_text (lines ! Suc k)) \<noteq> []"
    and "\<forall>l \<in> set (drop (k + 2) lines).
           split_line l \<noteq> [] \<longrightarrow>
           length (split_line l) = length (split_line (header_text (lines ! Suc k)))"
    and "length (validate_names E (split_line (header_text (lines ! Suc k))))
           = length (split_line (header_text (lines ! Suc k)))"
    and "distinct (validate_names E (split_line (header_text (lines ! Suc k))))"
  shows "\<exists>T. storage2numpy E F storage_file = Inr T
     \<and> storage2numpy_lines E lines = Inr T
     \<and> map fst T = validate_names E (split_line (header_text (lines ! Suc k)))
     \<and> (\<forall>i < length T.
           column T (fst (T ! i))
             = Inr (map (\<lambda>r. np_float E (r ! i))
                      (filter (\<lambda>v. v \<noteq> []) (map split_line (drop (k + 2) lines)))))"
proof -
  have "storage2numpy E F storage_file = storage2numpy_lines E lines"
    using assms(1) by (simp add: storage2numpy_def open_lines_def bind_def)
  with storage2numpy_lines_header_row [OF assms(2-9)] show ?thesis by auto
qed

theorem storage2numpy_header_row_witness:
  "\<exists>T. storage2numpy sample_env sample_files ''results/subject01_pErr.sto'' = Inr T
     \<and> map fst T = [''time'', ''pelvis_tx'', ''hip_flexion_r'']
     \<and> column T ''time'' = Inr [0, 1 / 10]
     \<and> column T ''pelvis_tx'' = Inr [1 / 50, - (1 / 100)]
     \<and> column T ''hip_flexion_r'' = Inr [0, 0]"
proof -
  have l: "length sample_pErr = 6"
    and l2: "sample_pErr ! 2 = ''endheader''"
    and l3: "sample_pErr ! Suc 2 = ''time pelvis_tx hip_flexion_r''"
    and d: "drop (2 + 2) sample_pErr = [''0.0 0.02 0.0'', ''0.1 -0.01 0.0'']"
    by (simp_all add: sample_pErr_def)
  have h: "split_line (header_text (sample_pErr ! Suc 2)) = [''time'', ''pelvis_tx'', ''hip_flexion_r'']"
    unfolding l3
    by (simp add: split_line_def header_text_def strip_comment_def py_split_def is_space_def)
  have r: "map split_line (drop (2 + 2) sample_pErr)
      = [[''0.0'', ''0.02'', ''0.0''], [''0.1'', ''-0.01'', ''0.0'']]"
    unfolding d by (simp add: split_line_def strip_comment_def py_split_def is_space_def)
  have v: "validate_names sample_env = (\<lambda>names. names)"
    by (simp add: sample_env_def)
  have a1: "2 < length sample_pErr" and a2: "sublist ''endheader'' (sample_pErr ! 2)"
    and a3: "\<forall>j<2. \<not> sublist ''endheader'' (sample_pErr ! j)"
    and a4: "Suc 2 < length sample_pErr"
    by (simp_all add: sample_pErr_def sublist_code less_Suc_eq numeral_2_eq_2)
  have a5: "split_line (header_text (sample_pErr ! Suc 2)) \<noteq> []"
    unfolding h by simp
  have a6: "\<forall>l \<in> set (drop (2 + 2) sample_pErr). split_line l \<noteq> [] \<longrightarrow>
      length (split_line l) = length (split_line (header_text (sample_pErr ! Suc 2)))"
    unfolding h d by (simp add: split_line_def strip_comment_def py_split_def is_space_def)
  have a7: "length (validate_names sample_env (split_line (header_text (sample_pErr ! Suc 2))))
      = length (split_line (header_text (sample_pErr ! Suc 2)))"
    and a8: "distinct (validate_names sample_env (split_line (header_text (sample_pErr ! Suc 2))))"
    unfolding h v by simp_all
  have a0: "sample_files ''results/subject01_pErr.sto'' = Some (TextFile sample_pErr)"
    by (simp add: sample_files_def)
  from storage2numpy_header_row [where F = sample_files
      and storage_file = "''results/subject01_pErr.sto''", OF a0 a1 a2 a3 a4 a5 a6 a7 a8]
  obtain T where T: "storage2numpy sample_env sample_files ''results/subject01_pErr.sto'' = Inr T"
    and names: "map fst T = [''time'', ''pelvis_tx'', ''hip_flexion_r'']"
    and cols: "\<And>i. i < length T \<Longrightarrow> column T (fst (T ! i))
        = Inr (map (\<lambda>r. np_float sample_env (r ! i))
                 [[''0.0'', ''0.02'', ''0.0''], [''0.1'', ''-0.01'', ''0.0'']])"
    unfolding h v r by auto
  from names obtain c0 c1 c2 where
    Teq: "T = [(''time'', c0), (''pelvis_tx'', c1), (''hip_flexion_r'', c2)]"
    by (auto simp: map_eq_Cons_conv)
  have len: "length T = 3" and f: "fst (T ! 0) = ''time''" "fst (T ! 1) = ''pelvis_tx''"
      "fst (T ! 2) = ''hip_flexion_r''"
    by (simp_all add: Teq)
  have n: "np_float sample_env ''0.0'' = 0" "np_float sample_env ''0.1'' = 1 / 10"
      "np_float sample_env ''0.02'' = 1 / 50" "np_float sample_env ''-0.01'' = - (1 / 100)"
    by (simp_all add: sample_env_def decimal_def unsigned_decimal_def digit_of_def)
  from cols [of 0] cols [of 1] cols [of 2] len f n T names show ?thesis by simp
qed

section \<open>Task weights: the error of a task and the new weights\<close>

lemma np_max_abs:
  "col \<noteq> [] \<Longrightarrow> np_max (np_abs col) = Inr (Max (abs ` set col))"
  by (cases col) (simp_all add: np_max_def np_abs_def Max.set_eq_fold [symmetric])

lemma this_err_spec:
  "col \<noteq> [] \<Longrightarrow>
   (if prefix ''pelvis_t'' colname
    then bind (np_max (np_abs col)) (\<lambda>m. Inr (100 * m))
    else bind (np_max (np_abs col)) (\<lambda>m. Inr (rad2deg m)))
   = Inr (this_err_value colname col)"
  by (simp add: np_max_abs bind_def this_err_value_def rad2deg_def)

lemma list_index_Some:
  "list_index xs x = Some i \<Longrightarrow> i < length xs \<and> xs ! i = x"
  by (induction xs arbitrary: i) (auto split: if_splits)

lemma list_index_mem:
  "x \<in> set xs \<Longrightarrow> \<exists>i. list_index xs x = Some i"
  by (induction xs) auto

lemma choose_weights_step:
  assumes "colname \<in> set names" "map_of T colname = Some col" "col \<noteq> []"
    and "list_index names colname = Some i" "i < length ws"
  shows "choose_weights lo hi ((lo + hi) / 2) names T (colname # rest) ws =
     choose_weights lo hi ((lo + hi) / 2) names T rest
       (if this_err_value colname col > hi \<or> this_err_value colname col < lo
        then ws[i := spec_new_weight lo hi (this_err_value colname col) (ws ! i)] else ws)"
  using assms
  by (simp add: this_err_spec column_def py_index_def getitem_def bind_def
      spec_new_weight_def spec_increment_def Let_def)

lemma choose_weights_skip:
  "colname \<notin> set names \<Longrightarrow>
   choose_weights lo hi avg names T (colname # rest) ws = choose_weights lo hi avg names T rest ws"
  by simp

lemma choose_weights_all:
  assumes "distinct cols"
    and "\<forall>c \<in> set cols. c \<in> set names \<longrightarrow> (\<exists>col. map_of T c = Some col \<and> col \<noteq> [])"
    and "length ws = length names"
  shows "\<exists>ws'. choose_weights lo hi ((lo + hi) / 2) names T cols ws = Inr ws'
     \<and> length ws' = length ws
     \<and> (\<forall>i < length names. ws' ! i = spec_weight_after lo hi names T cols ws i)"
  using assms
proof (induction cols arbitrary: ws)
  case Nil
  then show ?case by (simp add: spec_weight_after_def)
next
  case (Cons c cols)
  show ?case
  proof (cases "c \<in> set names")
    case False
    from Cons.prems have "\<exists>ws'. choose_weights lo hi ((lo + hi) / 2) names T cols ws = Inr ws'
       \<and> length ws' = length ws \<and> (\<forall>i < length names. ws' ! i = spec_weight_after lo hi names T cols ws i)"
      by (intro Cons.IH) auto
    moreover have "spec_weight_after lo hi names T (c # cols) ws i = spec_weight_after lo hi names T cols ws i"
      if "i < length names" for i
      using that False by (auto simp: spec_weight_after_def Let_def)
    ultimately show ?thesis using False by (auto simp: choose_weights_skip)
  next
    case True
    with Cons.prems obtain col where col: "map_of T c = Some col" "col \<noteq> []" by auto
    from True obtain i0 where i0: "list_index names c = Some i0" using list_index_mem by fastforce
    then have i0': "i0 < length names" "names ! i0 = c" using list_index_Some by fastforce+
    let ?e = "this_err_value c col"
    let ?ws1 = "if ?e > hi \<or> ?e < lo then ws[i0 := spec_new_weight lo hi ?e (ws ! i0)] else ws"
    have step: "choose_weights lo hi ((lo + hi) / 2) names T (c # cols) ws
        = choose_weights lo hi ((lo + hi) / 2) names T cols ?ws1"
      using choose_weights_step [OF True col i0] i0' Cons.prems(3) by simp
    have len1: "length ?ws1 = length names" using Cons.prems(3) by simp
    from Cons.prems len1 have "\<exists>ws'. choose_weights lo hi ((lo + hi) / 2) names T cols ?ws1 = Inr ws'
       \<and> length ws' = length ?ws1 \<and> (\<forall>i < length names. ws' ! i = spec_weight_after lo hi names T cols ?ws1 i)"
      by (intro Cons.IH) auto
    then obtain ws' where ws': "choose_weights lo hi ((lo + hi) / 2) names T cols ?ws1 = Inr ws'"
      "length ws' = length ?ws1" "\<forall>i < length names. ws' ! i = spec_weight_after lo hi names T cols ?ws1 i"
      by blast
    have "spec_weight_after lo hi names T cols ?ws1 i = spec_weight_after lo hi names T (c # cols) ws i"
      if "i < length names" for i
    proof (cases "i = i0")
      case True
      with i0 i0' col Cons.prems(1,3) show ?thesis
        by (auto simp: spec_weight_after_def Let_def)
    next
      case False
      with i0 i0' that Cons.prems(3) show ?thesis
        by (auto simp: spec_weight_after_def Let_def)
    qed
    with ws' step len1 Cons.prems(3) show ?thesis by auto
  qed
qed


lemma max_error_loop_ok:
  "max_error_loop T names cols acc = Inr r \<Longrightarrow>
   \<forall>c \<in> set cols. c \<in> set names \<longrightarrow> (\<exists>col. map_of T c = Some col \<and> col \<noteq> [])"
proof (induction cols arbitrary: acc)
  case Nil
  then show ?case by simp
next
  case (Cons c cols)
  show ?case
  proof (cases "c \<in> set names")
    case False
    with Cons show ?thesis by auto
  next
    case True
    with Cons.prems obtain col where col: "map_of T c = Some col"
      by (auto simp: column_def bind_def split: option.splits)
    with True Cons.prems have ne: "col \<noteq> []"
      by (auto simp: column_def bind_def np_max_def np_abs_def split: if_splits)
    from True col ne Cons.prems obtain acc' where "max_error_loop T names cols acc' = Inr r"
      by (auto simp: column_def this_err_spec bind_def split: if_splits)
    from Cons.IH [OF this] True col ne show ?thesis by auto
  qed
qed

lemma max_error_loop_char:
  assumes "\<forall>c \<in> set cols. c \<in> set names \<longrightarrow> (\<exists>col. map_of T c = Some col \<and> col \<noteq> [])"
  shows "\<exists>r. max_error_loop T names cols acc = Inr r
     \<and> (r = None \<longrightarrow> acc = None \<and> tracked_error_list T names cols = [])
     \<and> (\<forall>m c. r = Some (m, c) \<longrightarrow>
           m \<in> set (tracked_error_list T names cols) \<union> acc_set acc
         \<and> (\<forall>x \<in> set (tracked_error_list T names cols) \<union> acc_set acc. x \<le> m))"
  using assms
proof (induction cols arbitrary: acc)
  case Nil
  then show ?case by (auto simp: tracked_error_list_def acc_set_def)
next
  case (Cons c cols)
  show ?case
  proof (cases "c \<in> set names")
    case False
    then have E: "tracked_error_list T names (c # cols) = tracked_error_list T names cols" by (simp add: tracked_error_list_def)
    from Cons.IH [of acc] Cons.prems False show ?thesis unfolding E by auto
  next
    case True
    with Cons.prems obtain col where col: "map_of T c = Some col" "col \<noteq> []" by auto
    let ?e = "this_err_value c col"
    let ?acc1 = "if (case acc of None \<Rightarrow> True | Some (a, n) \<Rightarrow> ?e > a) then Some (?e, c) else acc"
    have step: "max_error_loop T names (c # cols) acc = max_error_loop T names cols ?acc1"
      using True col by (simp add: column_def this_err_spec bind_def)
    have E: "tracked_error_list T names (c # cols) = ?e # tracked_error_list T names cols"
      using True col by (simp add: tracked_error_list_def)
    from Cons.IH [of ?acc1] Cons.prems obtain r where
      r: "max_error_loop T names cols ?acc1 = Inr r"
      "r = None \<longrightarrow> ?acc1 = None \<and> tracked_error_list T names cols = []"
      "\<forall>m c. r = Some (m, c) \<longrightarrow> m \<in> set (tracked_error_list T names cols) \<union> acc_set ?acc1
         \<and> (\<forall>x \<in> set (tracked_error_list T names cols) \<union> acc_set ?acc1. x \<le> m)"
      by auto
    have n: "r \<noteq> None" using r(2) by (auto split: if_splits)
    have "m \<in> set (tracked_error_list T names (c # cols)) \<union> acc_set acc
         \<and> (\<forall>x \<in> set (tracked_error_list T names (c # cols)) \<union> acc_set acc. x \<le> m)"
      if "r = Some (m, c')" for m c'
    proof (cases acc)
      case None
      with r(3) that show ?thesis unfolding E by (auto simp: acc_set_def)
    next
      case (Some an)
      obtain a n where an: "an = (a, n)" by (cases an)
      show ?thesis
      proof (cases "?e > a")
        case True
        with r(3) that Some an show ?thesis unfolding E by (fastforce simp: acc_set_def)
      next
        case False
        with r(3) that Some an show ?thesis unfolding E by (fastforce simp: acc_set_def)
      qed
    qed
    with r(1) n step show ?thesis by auto
  qed
qed

lemma min_error_loop_ok:
  "min_error_loop T names cols acc = Inr r \<Longrightarrow>
   \<forall>c \<in> set cols. c \<in> set names \<longrightarrow> (\<exists>col. map_of T c = Some col \<and> col \<noteq> [])"
proof (induction cols arbitrary: acc)
  case Nil
  then show ?case by simp
next
  case (Cons c cols)
  show ?case
  proof (cases "c \<in> set names")
    case False
    with Cons show ?thesis by auto
  next
    case True
    with Cons.prems obtain col where col: "map_of T c = Some col"
      by (auto simp: column_def bind_def split: option.splits)
    with True Cons.prems have ne: "col \<noteq> []"
      by (auto simp: column_def bind_def np_max_def np_abs_def split: if_splits)
    from True col ne Cons.prems obtain acc' where "min_error_loop T names cols acc' = Inr r"
      by (auto simp: column_def this_err_spec bind_def split: if_splits)
    from Cons.IH [OF this] True col ne show ?thesis by auto
  qed
qed


lemma min_error_loop_char:
  assumes "\<forall>c \<in> set cols. c \<in> set names \<longrightarrow> (\<exists>col. map_of T c = Some col \<and> col \<noteq> [])"
  shows "\<exists>r. min_error_loop T names cols acc = Inr r
     \<and> (r = None \<longrightarrow> acc = None \<and> tracked_error_list T names cols = [])
     \<and> (\<forall>m c. r = Some (m, c) \<longrightarrow>
           m \<in> set (tracked_error_list T names cols) \<union> acc_set acc
         \<and> (\<forall>x \<in> set (tracked_error_list T names cols) \<union> acc_set acc. m \<le> x))"
  using assms
proof (induction cols arbitrary: acc)
  case Nil
  then show ?case by (auto simp: tracked_error_list_def acc_set_def)
next
  case (Cons c cols)
  show ?case
  proof (cases "c \<in> set names")
    case False
    then have E: "tracked_error_list T names (c # cols) = tracked_error_list T names cols" by (simp add: tracked_error_list_def)
    from Cons.IH [of acc] Cons.prems False show ?thesis unfolding E by auto
  next
    case True
    with Cons.prems obtain col where col: "map_of T c = Some col" "col \<noteq> []" by auto
    let ?e = "this_err_value c col"
    let ?acc1 = "if (case acc of None \<Rightarrow> True | Some (a, n) \<Rightarrow> ?e < a) then Some (?e, c) else acc"
    have step: "min_error_loop T names (c # cols) acc = min_error_loop T names cols ?acc1"
      using True col by (simp add: column_def this_err_spec bind_def)
    have E: "tracked_error_list T names (c # cols) = ?e # tracked_error_list T names cols"
      using True col by (simp add: tracked_error_list_def)
    from Cons.IH [of ?acc1] Cons.prems obtain r where
      r: "min_error_loop T names cols ?acc1 = Inr r"
      "r = None \<longrightarrow> ?acc1 = None \<and> tracked_error_list T names cols = []"
      "\<forall>m c. r = Some (m, c) \<longrightarrow> m \<in> set (tracked_error_list T names cols) \<union> acc_set ?acc1
         \<and> (\<forall>x \<in> set (tracked_error_list T names cols) \<union> acc_set ?acc1. m \<le> x)"
      by auto
    have n: "r \<noteq> None" using r(2) by (auto split: if_splits)
    have "m \<in> set (tracked_error_list T names (c # cols)) \<union> acc_set acc
         \<and> (\<forall>x \<in> set (tracked_error_list T names (c # cols)) \<union> acc_set acc. m \<le> x)"
      if "r = Some (m, c')" for m c'
    proof (cases acc)
      case None
      with r(3) that show ?thesis unfolding E by (auto simp: acc_set_def)
    next
      case (Some an)
      obtain a n where an: "an = (a, n)" by (cases an)
      show ?thesis
      proof (cases "?e < a")
        case True
        with r(3) that Some an show ?thesis unfolding E by (fastforce simp: acc_set_def)
      next
        case False
        with r(3) that Some an show ?thesis unfolding E by (fastforce simp: acc_set_def)
      qed
    qed
    with r(1) n step show ?thesis by auto
  qed
qed


lemma tracked_error_list_set:
  assumes "distinct (map fst T)"
  shows "set (tracked_error_list T names (map fst T)) = tracked_errors T names"
proof -
  have m: "map_of T c = Some col" if "(c, col) \<in> set T" for c col
    using that assms by simp
  show ?thesis
    unfolding tracked_error_list_def tracked_errors_def
    by (force simp: m image_iff)
qed

lemma tracked_all_cols:
  assumes "distinct (map fst T)" "\<forall>(c, col) \<in> set T. c \<in> set names \<longrightarrow> col \<noteq> []"
  shows "\<forall>c \<in> set (map fst T). c \<in> set names \<longrightarrow> (\<exists>col. map_of T c = Some col \<and> col \<noteq> [])"
  using assms by (fastforce simp: map_of_eq_Some_iff)

lemma max_error_spec:
  assumes "distinct (map fst T)" "\<forall>(c, col) \<in> set T. c \<in> set names \<longrightarrow> col \<noteq> []"
    and "tracked_errors T names \<noteq> {}"
  shows "\<exists>c. max_error T names = Inr (Max (tracked_errors T names), c)"
proof -
  from max_error_loop_char [OF tracked_all_cols [OF assms(1,2)], of None]
  obtain r where r: "max_error_loop T names (map fst T) None = Inr r"
    "r = None \<longrightarrow> tracked_error_list T names (map fst T) = []"
    "\<forall>m c. r = Some (m, c) \<longrightarrow> m \<in> set (tracked_error_list T names (map fst T))
         \<and> (\<forall>x \<in> set (tracked_error_list T names (map fst T)). x \<le> m)"
    by (auto simp: acc_set_def)
  from assms(3) tracked_error_list_set [OF assms(1), of names] have "tracked_error_list T names (map fst T) \<noteq> []" by auto
  with r(2) obtain m c where mc: "r = Some (m, c)" by (cases r) auto
  with r(3) have "m = Max (tracked_errors T names)"
    unfolding tracked_error_list_set [OF assms(1)]
    by (metis List.finite_set Max_eqI tracked_error_list_set [OF assms(1)])
  with r(1) mc show ?thesis by (auto simp: max_error_def bind_def)
qed

lemma min_error_spec:
  assumes "distinct (map fst T)" "\<forall>(c, col) \<in> set T. c \<in> set names \<longrightarrow> col \<noteq> []"
    and "tracked_errors T names \<noteq> {}"
  shows "\<exists>c. min_error T names = Inr (Min (tracked_errors T names), c)"
proof -
  from min_error_loop_char [OF tracked_all_cols [OF assms(1,2)], of None]
  obtain r where r: "min_error_loop T names (map fst T) None = Inr r"
    "r = None \<longrightarrow> tracked_error_list T names (map fst T) = []"
    "\<forall>m c. r = Some (m, c) \<longrightarrow> m \<in> set (tracked_error_list T names (map fst T))
         \<and> (\<forall>x \<in> set (tracked_error_list T names (map fst T)). m \<le> x)"
    by (auto simp: acc_set_def)
  from assms(3) tracked_error_list_set [OF assms(1), of names] have "tracked_error_list T names (map fst T) \<noteq> []" by auto
  with r(2) obtain m c where mc: "r = Some (m, c)" by (cases r) auto
  with r(3) have "m = Min (tracked_errors T names)"
    unfolding tracked_error_list_set [OF assms(1)]
    by (metis List.finite_set Min_eqI tracked_error_list_set [OF assms(1)])
  with r(1) mc show ?thesis by (auto simp: min_error_def bind_def)
qed

section \<open>The sample run, evaluated\<close>

lemmas sample_eval =
  bind_def is_space_def lstrip_def rstrip_def strip_def py_split_def
  findall_def find_child_def item0_def getitem_def attrib_get_def
  path_exists_def etree_parse_def open_lines_def strip_comment_def split_line_def header_text_def
  genfromtxt_def storage2numpy_lines_def storage2numpy_def
  py_index_def read_joint_def task_weights_from_file_def call_task_weights_from_file_def
  joint_weight_text_def write_task_weights_to_file_def
  np_abs_def np_max_def rad2deg_def column_def max_error_def min_error_def
  subprocess_call_def update_plot_def text_strip_def
  posix_isabs_def posix_join_def posix_split_def
  digit_of_def unsigned_decimal_def decimal_def digit_char_def nat_str_def fixed6_def
  sample_env_def sample_setup_def sample_tasks_def sample_pErr_def sample_files_def
  sample_world_def sample_table_def sample_ctx_def sample_state_def
  sublist_code suffix_to_prefix Let_def

lemma sample_storage:
  "storage2numpy sample_env sample_files ''results/subject01_pErr.sto'' = Inr sample_table"
  by (simp add: sample_eval)

lemma sample_read_setup:
  "read_setup sample_env sample_files ''setup.xml'' (Some [''pelvis_tx'', ''hip_flexion_r''])
     None 1 (3 / 2) ''rra'' = Inr (sample_ctx, [10, 4])"
  by (simp add: read_setup_def sample_eval)

lemma sample_errors:
  "max_error sample_table [''pelvis_tx'', ''hip_flexion_r''] = Inr (2, ''pelvis_tx'')"
  "min_error sample_table [''pelvis_tx'', ''hip_flexion_r''] = Inr (0, ''hip_flexion_r'')"
  by (simp_all add: sample_eval)

lemma sample_choose:
  "choose_weights 1 (3 / 2) (5 / 4) [''pelvis_tx'', ''hip_flexion_r''] sample_table
     (map fst sample_table) [10, 4] = Inr [55 / 4, 3 / 2]"
  by (simp add: sample_eval)

lemma sample_ctx_fields:
  "task_names sample_ctx = [''pelvis_tx'', ''hip_flexion_r'']"
  "tasks_fpath sample_ctx = ''tasks.xml''"
  "pErr_fpath sample_ctx = ''results/subject01_pErr.sto''"
  "fig_fpath sample_ctx = ''residuals_and_kinematics_error_auto_rra.pdf''"
  "rra_command sample_ctx = [''rra'', ''-S'', ''setup.xml'']"
  "min_max_err sample_ctx = 1" "max_max_err sample_ctx = 3 / 2" "avg_max_err sample_ctx = 5 / 4"
  by (simp_all add: sample_ctx_def)

lemma sample_state_fields:
  "task_weights sample_state = [10, 4]" "pErr sample_state = sample_table"
  "maxerr sample_state = 2" "minerr sample_state = 0" "iter_count sample_state = 0"
  by (simp_all add: sample_state_def)

lemma sample_read_errors:
  "read_errors sample_env sample_files sample_ctx [10, 4] 0 = Inr sample_state"
  by (simp add: read_errors_def sample_ctx_fields sample_storage sample_errors bind_def
      sample_state_def)

lemma sample_before_loop:
  "before_loop sample_env ''setup.xml'' (Some [''pelvis_tx'', ''hip_flexion_r'']) None 1 (3 / 2)
     ''rra'' sample_world = (Inr (sample_ctx, sample_state), sample_world)"
proof -
  have f: "files sample_world = sample_files" by (simp add: sample_world_def)
  have e: "path_exists sample_files ''results/subject01_pErr.sto''"
    by (simp add: path_exists_def sample_files_def)
  show ?thesis
    by (simp add: before_loop_def f sample_read_setup sample_ctx_fields e sample_read_errors)
qed

lemma sample_loop_test: "loop_test sample_ctx sample_state"
  by (simp add: loop_test_def sample_ctx_fields sample_state_fields)

lemma nat_digits_unfold:
  "0 < k \<Longrightarrow> nat_digits k n = nat_digits (k - 1) (n div 10) @ [digit_char (n mod 10)]"
  by (cases k) simp_all

lemma fixed6_samples:
  "fixed6 (55 / 4) = ''13.750000''" "fixed6 (3 / 2) = ''1.500000''"
proof -
  have n: "nat \<lfloor>\<bar>55 / 4 :: real\<bar> * 1000000 + 1 / 2\<rfloor> = 13750000"
    "nat \<lfloor>\<bar>3 / 2 :: real\<bar> * 1000000 + 1 / 2\<rfloor> = 1500000" by simp_all
  have d: "(13750000 :: nat) div 1000000 = 13" "(13750000 :: nat) mod 1000000 = 750000"
     "(1500000 :: nat) div 1000000 = 1" "(1500000 :: nat) mod 1000000 = 500000" by simp_all
  have s: "nat_str 13 = ''13''" "nat_str 1 = ''1''"
    by (simp_all add: nat_str_def nat_digits_unfold digit_char_def)
  have g: "nat_digits 6 750000 = ''750000''" "nat_digits 6 500000 = ''500000''"
    by (simp_all add: nat_digits_unfold digit_char_def)
  show "fixed6 (55 / 4) = ''13.750000''" "fixed6 (3 / 2) = ''1.500000''"
    unfolding fixed6_def Let_def n d s g by simp_all
qed

lemma sample_write:
  "write_task_weights_to_file sample_env [55 / 4, 3 / 2] ''tasks.xml''
     [''pelvis_tx'', ''hip_flexion_r''] False sample_world = (Inr (), sample_world_written)"
proof -
  have f: "format_f sample_env = fixed6" by (simp add: sample_env_def)
  show ?thesis
    by (simp add: write_task_weights_to_file_def joint_weight_text_def f fixed6_samples
        etree_parse_def sample_world_def sample_files_def sample_tasks_def bind_def
        attrib_get_def py_index_def getitem_def find_child_def
        sample_world_written_def sample_tasks_written_def)
qed

lemma sample_call:
  "subprocess_call sample_env [''rra'', ''-S'', ''setup.xml''] sample_world_written
     = (Inr (), sample_world_run)"
  by (simp add: subprocess_call_def sample_env_def sample_world_written_def sample_world_run_def)

lemma sample_plot:
  "update_plot sample_env ''residuals_and_kinematics_error_auto_rra.pdf'' sample_world_run
     = (Inr (), sample_world_end)"
  by (simp add: update_plot_def sample_env_def sample_world_run_def sample_world_end_def)

lemma sample_loop_body:
  "loop_body sample_env sample_ctx sample_state sample_world = (Inl TypeError, sample_world_end)"
  by (simp add: loop_body_def sample_ctx_fields sample_state_fields sample_choose sample_write
      sample_call sample_plot call_task_weights_from_file_def)

lemma sample_run:
  "select_rra_task_weights sample_env ''setup.xml'' (Some [''pelvis_tx'', ''hip_flexion_r''])
     None 1 (3 / 2) ''rra'' sample_world = Some (Inl TypeError, sample_world_end)"
  by (simp add: select_rra_task_weights_def sample_before_loop rra_loop.simps [of _ sample_ctx sample_state]
      sample_loop_test sample_loop_body)

section \<open>Task weights: one iteration of the loop\<close>

lemma read_setup_thresholds:
  "read_setup E F setup_fpath names omit lo hi exe = Inr (C, ws) \<Longrightarrow>
   min_max_err C = lo \<and> max_max_err C = hi \<and> avg_max_err C = 0.5 * (lo + hi)"
  by (auto simp: read_setup_def bind_def Let_def split: sum.splits)

lemma map_of_distinct_mem:
  "distinct (map fst T) \<Longrightarrow> (c, col) \<in> set T \<Longrightarrow> map_of T c = Some col"
  by simp

lemma choose_weights_tracked:
  assumes "distinct (map fst T)"
    and "\<forall>(c, col) \<in> set T. c \<in> set names \<longrightarrow> col \<noteq> []"
    and "length ws = length names"
  shows "\<exists>ws'. choose_weights lo hi ((lo + hi) / 2) names T (map fst T) ws = Inr ws'
     \<and> length ws' = length ws
     \<and> (\<forall>c col i. (c, col) \<in> set T \<and> list_index names c = Some i
           \<and> (this_err_value c col > hi \<or> this_err_value c col < lo) \<longrightarrow>
           ws' ! i = spec_new_weight lo hi (this_err_value c col) (ws ! i))"
proof -
  from choose_weights_all [OF assms(1) tracked_all_cols [OF assms(1,2)] assms(3), of lo hi]
  obtain ws' where ws': "choose_weights lo hi ((lo + hi) / 2) names T (map fst T) ws = Inr ws'"
    "length ws' = length ws"
    "\<forall>i < length names. ws' ! i = spec_weight_after lo hi names T (map fst T) ws i"
    by blast
  have "ws' ! i = spec_new_weight lo hi (this_err_value c col) (ws ! i)"
    if "(c, col) \<in> set T" "list_index names c = Some i"
      "this_err_value c col > hi \<or> this_err_value c col < lo" for c col i
  proof -
    from that(2) have i: "i < length names" "names ! i = c" using list_index_Some by fastforce+
    from that(1) have m: "map_of T c = Some col" "c \<in> set (map fst T)"
      using assms(1) by (auto simp: image_iff intro: bexI [of _ "(c, col)"])
    from ws'(3) i have "ws' ! i = spec_weight_after lo hi names T (map fst T) ws i" by simp
    with i m that(2,3) show ?thesis by (auto simp: spec_weight_after_def Let_def)
  qed
  with ws'(1,2) show ?thesis by blast
qed

text \<open>
  Claim C1. The loop over the columns of one iteration ends with an array in which,
  for every tracked column whose peak error \<open>e\<close> is out of range, the weight at the
  task's position is \<open>old + 0.5 * increment * old\<close>, with \<open>increment = e - midpoint\<close>
  when \<open>e\<close> is above the range and \<open>increment = - |midpoint - e|\<close> when it is below,
  and \<open>midpoint = (min_max_err + max_max_err) / 2\<close>, which is the \<open>avg_max_err\<close> the
  function computes. The columns of a table have distinct names, and the array has one
  weight per task name.
\<close>

theorem weight_update_formula:
  assumes "distinct (map fst T)"
    and "\<forall>(c, col) \<in> set T. c \<in> set names \<longrightarrow> col \<noteq> []"
    and "length ws = length names"
  shows "(\<exists>ws'. choose_weights lo hi (0.5 * (lo + hi)) names T (map fst T) ws = Inr ws'
     \<and> (\<forall>c col i. (c, col) \<in> set T \<and> list_index names c = Some i
           \<and> (this_err_value c col > hi \<or> this_err_value c col < lo) \<longrightarrow>
           ws' ! i = ws ! i
             + 0.5 * (if this_err_value c col > hi then this_err_value c col - (lo + hi) / 2
                      else - \<bar>(lo + hi) / 2 - this_err_value c col\<bar>) * ws ! i))
   \<and> (\<forall>C ws0. read_setup E F setup_fpath names_arg omit lo hi exe = Inr (C, ws0) \<longrightarrow>
         min_max_err C = lo \<and> max_max_err C = hi \<and> avg_max_err C = 0.5 * (lo + hi))"
proof -
  have h: "0.5 * (lo + hi) = (lo + hi) / 2" by simp
  from choose_weights_tracked [OF assms, of lo hi]
  obtain ws' where ws': "choose_weights lo hi ((lo + hi) / 2) names T (map fst T) ws = Inr ws'"
    and u: "\<And>c col i. (c, col) \<in> set T \<Longrightarrow> list_index names c = Some i \<Longrightarrow>
          this_err_value c col > hi \<or> this_err_value c col < lo \<Longrightarrow>
          ws' ! i = spec_new_weight lo hi (this_err_value c col) (ws ! i)"
    by blast
  have "\<exists>ws'. choose_weights lo hi (0.5 * (lo + hi)) names T (map fst T) ws = Inr ws'
     \<and> (\<forall>c col i. (c, col) \<in> set T \<and> list_index names c = Some i
           \<and> (this_err_value c col > hi \<or> this_err_value c col < lo) \<longrightarrow>
           ws' ! i = ws ! i
             + 0.5 * (if this_err_value c col > hi then this_err_value c col - (lo + hi) / 2
                      else - \<bar>(lo + hi) / 2 - this_err_value c col\<bar>) * ws ! i)"
    unfolding h
  proof (intro exI conjI allI impI)
    show "choose_weights lo hi ((lo + hi) / 2) names T (map fst T) ws = Inr ws'" by (rule ws')
  next
    fix c col i
    assume "(c, col) \<in> set T \<and> list_index names c = Some i
           \<and> (this_err_value c col > hi \<or> this_err_value c col < lo)"
    then have "ws' ! i = spec_new_weight lo hi (this_err_value c col) (ws ! i)"
      using u by blast
    then show "ws' ! i = ws ! i
             + 0.5 * (if this_err_value c col > hi then this_err_value c col - (lo + hi) / 2
                      else - \<bar>(lo + hi) / 2 - this_err_value c col\<bar>) * ws ! i"
      by (simp only: spec_new_weight_def spec_increment_def)
  qed
  moreover have "\<forall>C ws0. read_setup E F setup_fpath names_arg omit lo hi exe = Inr (C, ws0) \<longrightarrow>
         min_max_err C = lo \<and> max_max_err C = hi \<and> avg_max_err C = 0.5 * (lo + hi)"
    using read_setup_thresholds by blast
  ultimately show ?thesis by (rule conjI)
qed

lemma sample_table_ok:
  "distinct (map fst sample_table)"
  "\<forall>(c, col) \<in> set sample_table. c \<in> set [''pelvis_tx'', ''hip_flexion_r''] \<longrightarrow> col \<noteq> []"
  by (simp_all add: sample_table_def)

lemma sample_peaks:
  "this_err_value ''pelvis_tx'' [1 / 50, - (1 / 100)] = 2"
  "this_err_value ''hip_flexion_r'' [0, 0] = 0"
  by (simp_all add: this_err_value_def)

theorem weight_update_formula_witness:
  "\<exists>ws'. choose_weights 1 1.5 (0.5 * (1 + 1.5)) [''pelvis_tx'', ''hip_flexion_r''] sample_table
            (map fst sample_table) [10, 4] = Inr ws'
     \<and> this_err_value ''pelvis_tx'' [1 / 50, - (1 / 100)] = 2
     \<and> ws' ! 0 = 13.75"
proof -
  have l: "length [10, 4 :: real] = length [''pelvis_tx'', ''hip_flexion_r'']" by simp
  from weight_update_formula [OF sample_table_ok l, of 1 "1.5"]
  obtain ws' where ws': "choose_weights 1 1.5 (0.5 * (1 + 1.5)) [''pelvis_tx'', ''hip_flexion_r'']
        sample_table (map fst sample_table) [10, 4] = Inr ws'"
    and u: "\<forall>c col i. (c, col) \<in> set sample_table \<and>
        list_index [''pelvis_tx'', ''hip_flexion_r''] c = Some i \<and>
        (this_err_value c col > 1.5 \<or> this_err_value c col < 1) \<longrightarrow>
        ws' ! i = [10, 4] ! i
             + 0.5 * (if this_err_value c col > 1.5 then this_err_value c col - (1 + 1.5) / 2
                      else - \<bar>(1 + 1.5) / 2 - this_err_value c col\<bar>) * [10, 4] ! i"
    by blast
  have "ws' ! 0 = 13.75"
    using u [rule_format, of "''pelvis_tx''" "[1 / 50, - (1 / 100)]" 0]
    by (simp add: sample_table_def sample_peaks)
  with ws' sample_peaks(1) show ?thesis by blast
qed

lemma tracked_errors_nonempty:
  "(c, col) \<in> set T \<Longrightarrow> c \<in> set names \<Longrightarrow> tracked_errors T names \<noteq> {}"
  by (auto simp: tracked_errors_def)

text \<open>
  The three places that compute the error of a column compute the same value, by the
  name rule of the code: \<open>max_error\<close> returns the largest and \<open>min_error\<close> the smallest
  \<open>this_err_value\<close> over the tracked columns, and the loop over the columns updates the
  weight of a column exactly when its \<open>this_err_value\<close> is out of range.
\<close>

lemma this_err_value_in_all_loops:
  assumes "distinct (map fst T)"
    and "\<forall>(c, col) \<in> set T. c \<in> set names \<longrightarrow> col \<noteq> []"
    and "(c, col) \<in> set T" and "c \<in> set names"
  shows "this_err_value c col
           = (if prefix ''pelvis_t'' c then 100 * Max (abs ` set col)
              else Max (abs ` set col) * 180 / pi)
     \<and> (\<exists>n. max_error T names = Inr (Max (tracked_errors T names), n))
     \<and> (\<exists>n. min_error T names = Inr (Min (tracked_errors T names), n))
     \<and> this_err_value c col \<in> tracked_errors T names
     \<and> (\<forall>i ws rest. list_index names c = Some i \<and> i < length ws \<longrightarrow>
           choose_weights lo hi ((lo + hi) / 2) names T (c # rest) ws
             = choose_weights lo hi ((lo + hi) / 2) names T rest
                 (if this_err_value c col > hi \<or> this_err_value c col < lo
                  then ws[i := spec_new_weight lo hi (this_err_value c col) (ws ! i)]
                  else ws))"
proof -
  from assms have ne: "tracked_errors T names \<noteq> {}" using tracked_errors_nonempty by blast
  from assms have m: "map_of T c = Some col" "col \<noteq> []" by auto
  have "this_err_value c col \<in> tracked_errors T names"
    using assms(3,4) by (force simp: tracked_errors_def)
  moreover have "choose_weights lo hi ((lo + hi) / 2) names T (c # rest) ws
             = choose_weights lo hi ((lo + hi) / 2) names T rest
                 (if this_err_value c col > hi \<or> this_err_value c col < lo
                  then ws[i := spec_new_weight lo hi (this_err_value c col) (ws ! i)]
                  else ws)"
    if "list_index names c = Some i" "i < length ws" for i ws rest
    using choose_weights_step [OF assms(4) m that] .
  ultimately show ?thesis
    using max_error_spec [OF assms(1,2) ne] min_error_spec [OF assms(1,2) ne]
    by (simp add: this_err_value_def)
qed

text \<open>The name rule of the code gives the error the specification words for every
  task but a rotation whose name starts with \<open>pelvis_t\<close>.\<close>

lemma this_err_value_claimed:
  "translational name \<or> \<not> prefix ''pelvis_t'' name \<Longrightarrow>
   this_err_value name col = claimed_peak_error translational name col"
  by (auto simp: this_err_value_def claimed_peak_error_def)

lemma tilt_degrees:
  "claimed_peak_error pelvis_translation ''pelvis_tilt'' [0.016, - 0.01] = 0.016 * 180 / pi"
  by (simp add: claimed_peak_error_def pelvis_translation_def)

lemma tilt_in_range: "0.5 \<le> 0.016 * 180 / pi" "0.016 * 180 / pi \<le> 1.5"
  using pi_ge_two pi_less_4 by (simp_all add: field_simps)

text \<open>
  Claim C3 says that the error of a rotational task is the largest absolute value of
  its column converted to degrees, and that the factor 100 is for the translational
  tasks whose name starts with \<open>pelvis_t\<close>. The code tests only the name: for the
  rotation \<open>pelvis_tilt\<close>, peaking at 0.016 radians, \<open>max_error\<close>, \<open>min_error\<close> and the
  loop over the columns take the error to be 1.6, which is 100 times the peak, where the
  peak in degrees is \<open>0.016 * 180 / pi\<close>, about 0.92. With the default thresholds 0.5
  and 1.5 the task is within range, and the code changes its weight from 10 to 13.
\<close>

theorem pelvis_tilt_scaled_as_translation:
  "max_error tilt_table [''pelvis_tilt''] = Inr (1.6, ''pelvis_tilt'')
 \<and> min_error tilt_table [''pelvis_tilt''] = Inr (1.6, ''pelvis_tilt'')
 \<and> choose_weights 0.5 1.5 1 [''pelvis_tilt''] tilt_table (map fst tilt_table) [10]
      = Inr [13]
 \<and> claimed_peak_error pelvis_translation ''pelvis_tilt'' [0.016, - 0.01] = 0.016 * 180 / pi
 \<and> 0.5 \<le> 0.016 * 180 / pi \<and> 0.016 * 180 / pi \<le> 1.5"
proof -
  have "max_error tilt_table [''pelvis_tilt''] = Inr (1.6, ''pelvis_tilt'')"
    "min_error tilt_table [''pelvis_tilt''] = Inr (1.6, ''pelvis_tilt'')"
    by (simp_all add: max_error_def min_error_def tilt_table_def column_def np_max_def
        np_abs_def bind_def)
  moreover have "choose_weights 0.5 1.5 1 [''pelvis_tilt''] tilt_table (map fst tilt_table) [10]
      = Inr [13]"
    by (simp add: tilt_table_def column_def np_max_def np_abs_def bind_def py_index_def
        getitem_def Let_def)
  ultimately show ?thesis using tilt_degrees tilt_in_range by simp
qed

lemma write_events:
  "write_task_weights_to_file E ws p names r w = (res, w1) \<Longrightarrow>
   (res = Inr () \<and> events w1 = events w @ [Wrote p ws]) \<or> ((\<exists>e. res = Inl e) \<and> w1 = w)"
  by (auto simp: write_task_weights_to_file_def split: sum.splits option.splits)

lemma call_events:
  "subprocess_call E cmd w = (res, w1) \<Longrightarrow>
   (res = Inr () \<and> events w1 = events w @ [Called cmd]) \<or> ((\<exists>e. res = Inl e) \<and> w1 = w)"
  by (auto simp: subprocess_call_def split: option.splits)

lemma plot_events:
  "update_plot E p w = (res, w1) \<Longrightarrow>
   (res = Inr () \<and> events w1 = events w @ [Saved p]) \<or> ((\<exists>e. res = Inl e) \<and> w1 = w)"
  by (auto simp: update_plot_def split: option.splits)

lemma loop_body_events:
  assumes "choose_weights (min_max_err C) (max_max_err C) (avg_max_err C) (task_names C)
             (pErr st) (map fst (pErr st)) (task_weights st) = Inr ws'"
  shows "\<exists>evs. events (snd (loop_body E C st w)) = events w @ evs
           \<and> prefix evs [Wrote (tasks_fpath C) ws', Called (rra_command C), Saved (fig_fpath C)]"
proof -
  obtain r1 w1 where w1: "write_task_weights_to_file E ws' (tasks_fpath C) (task_names C) False w = (r1, w1)"
    by (cases "write_task_weights_to_file E ws' (tasks_fpath C) (task_names C) False w")
  obtain r2 w2 where w2: "subprocess_call E (rra_command C) w1 = (r2, w2)"
    by (cases "subprocess_call E (rra_command C) w1")
  obtain r3 w3 where w3: "update_plot E (fig_fpath C) w2 = (r3, w3)"
    by (cases "update_plot E (fig_fpath C) w2")
  from write_events [OF w1] call_events [OF w2] plot_events [OF w3] show ?thesis
    by (auto simp: loop_body_def assms w1 w2 w3 call_task_weights_from_file_def Let_def)
qed

lemma loop_body_written_and_run:
  assumes "choose_weights (min_max_err C) (max_max_err C) (avg_max_err C) (task_names C)
             (pErr st) (map fst (pErr st)) (task_weights st) = Inr ws'"
    and "write_task_weights_to_file E ws' (tasks_fpath C) (task_names C) False w = (Inr (), w1)"
    and "subprocess_call E (rra_command C) w1 = (Inr (), w2)"
  shows "prefix (events w @ [Wrote (tasks_fpath C) ws', Called (rra_command C)])
           (events (snd (loop_body E C st w)))"
proof -
  obtain r3 w3 where w3: "update_plot E (fig_fpath C) w2 = (r3, w3)"
    by (cases "update_plot E (fig_fpath C) w2")
  from write_events [OF assms(2)] call_events [OF assms(3)] plot_events [OF w3] show ?thesis
    by (auto simp: loop_body_def assms w3 call_task_weights_from_file_def Let_def)
qed

text \<open>
  Claim C2. In one iteration, the loop over the columns first gives the array \<open>ws'\<close> in
  which every tracked column whose error is out of range has its new weight. What the
  body then does to the world is an initial part of: write \<open>ws'\<close> to the tasks file,
  run the tool, save the figure. So the file is written at most once, with all the
  updates, and the tool is run at most once, after the file was written; when the write
  and the tool succeed, both have happened in this order.
\<close>

theorem loop_body_batches_updates:
  assumes "distinct (map fst (pErr st))"
    and "\<forall>(c, col) \<in> set (pErr st). c \<in> set (task_names C) \<longrightarrow> col \<noteq> []"
    and "length (task_weights st) = length (task_names C)"
    and "avg_max_err C = (min_max_err C + max_max_err C) / 2"
  shows "\<exists>ws'. choose_weights (min_max_err C) (max_max_err C) (avg_max_err C) (task_names C)
                 (pErr st) (map fst (pErr st)) (task_weights st) = Inr ws'
     \<and> (\<forall>c col i. (c, col) \<in> set (pErr st) \<and> list_index (task_names C) c = Some i
           \<and> (this_err_value c col > max_max_err C \<or> this_err_value c col < min_max_err C) \<longrightarrow>
           ws' ! i = spec_new_weight (min_max_err C) (max_max_err C) (this_err_value c col)
                       (task_weights st ! i))
     \<and> (\<exists>evs. events (snd (loop_body E C st w)) = events w @ evs
           \<and> prefix evs [Wrote (tasks_fpath C) ws', Called (rra_command C), Saved (fig_fpath C)])
     \<and> (\<forall>w1 w2. write_task_weights_to_file E ws' (tasks_fpath C) (task_names C) False w
                    = (Inr (), w1)
                \<and> subprocess_call E (rra_command C) w1 = (Inr (), w2) \<longrightarrow>
           prefix (events w @ [Wrote (tasks_fpath C) ws', Called (rra_command C)])
             (events (snd (loop_body E C st w))))"
proof -
  from choose_weights_tracked [OF assms(1-3), of "min_max_err C" "max_max_err C"]
  obtain ws' where ws': "choose_weights (min_max_err C) (max_max_err C) (avg_max_err C) (task_names C)
                 (pErr st) (map fst (pErr st)) (task_weights st) = Inr ws'"
    and u: "\<forall>c col i. (c, col) \<in> set (pErr st) \<and> list_index (task_names C) c = Some i
           \<and> (this_err_value c col > max_max_err C \<or> this_err_value c col < min_max_err C) \<longrightarrow>
           ws' ! i = spec_new_weight (min_max_err C) (max_max_err C) (this_err_value c col)
                       (task_weights st ! i)"
    unfolding assms(4) by blast
  from ws' u loop_body_events [OF ws', of E w] loop_body_written_and_run [OF ws', of E w]
  show ?thesis by blast
qed

theorem loop_body_batches_updates_witness:
  "\<exists>ws'. choose_weights 1 (3 / 2) (5 / 4) [''pelvis_tx'', ''hip_flexion_r''] sample_table
            (map fst sample_table) [10, 4] = Inr ws'
     \<and> this_err_value ''pelvis_tx'' [1 / 50, - (1 / 100)] = 2
     \<and> this_err_value ''hip_flexion_r'' [0, 0] = 0
     \<and> ws' ! 0 = 13.75
     \<and> ws' ! 1 = 1.5
     \<and> prefix [Wrote ''tasks.xml'' ws', Called [''rra'', ''-S'', ''setup.xml'']]
          (events (snd (loop_body sample_env sample_ctx sample_state sample_world)))"
proof -
  have a: "distinct (map fst (pErr sample_state))"
    "\<forall>(c, col) \<in> set (pErr sample_state). c \<in> set (task_names sample_ctx) \<longrightarrow> col \<noteq> []"
    "length (task_weights sample_state) = length (task_names sample_ctx)"
    "avg_max_err sample_ctx = (min_max_err sample_ctx + max_max_err sample_ctx) / 2"
    using sample_table_ok by (simp_all add: sample_state_fields sample_ctx_fields)
  from loop_body_batches_updates [OF a, of sample_env sample_world]
  obtain ws' where ws': "choose_weights 1 (3 / 2) (5 / 4) [''pelvis_tx'', ''hip_flexion_r'']
        sample_table (map fst sample_table) [10, 4] = Inr ws'"
    and u: "\<forall>c col i. (c, col) \<in> set sample_table
           \<and> list_index [''pelvis_tx'', ''hip_flexion_r''] c = Some i
           \<and> (this_err_value c col > 3 / 2 \<or> this_err_value c col < 1) \<longrightarrow>
           ws' ! i = spec_new_weight 1 (3 / 2) (this_err_value c col) ([10, 4] ! i)"
    and p: "\<forall>w1 w2. write_task_weights_to_file sample_env ws' ''tasks.xml''
                [''pelvis_tx'', ''hip_flexion_r''] False sample_world = (Inr (), w1)
                \<and> subprocess_call sample_env [''rra'', ''-S'', ''setup.xml''] w1 = (Inr (), w2) \<longrightarrow>
           prefix (events sample_world @ [Wrote ''tasks.xml'' ws', Called [''rra'', ''-S'', ''setup.xml'']])
             (events (snd (loop_body sample_env sample_ctx sample_state sample_world)))"
    unfolding sample_state_fields sample_ctx_fields by blast
  from ws' sample_choose have eq: "ws' = [55 / 4, 3 / 2]" by simp
  have "ws' ! 0 = 13.75"
    using u [rule_format, of "''pelvis_tx''" "[1 / 50, - (1 / 100)]" 0]
    by (simp add: sample_table_def sample_peaks spec_new_weight_def spec_increment_def)
  moreover have "ws' ! 1 = 1.5"
    using u [rule_format, of "''hip_flexion_r''" "[0, 0]" 1]
    by (simp add: sample_table_def sample_peaks spec_new_weight_def spec_increment_def)
  moreover have "prefix [Wrote ''tasks.xml'' ws', Called [''rra'', ''-S'', ''setup.xml'']]
          (events (snd (loop_body sample_env sample_ctx sample_state sample_world)))"
    using p [rule_format, of sample_world_written sample_world_run] sample_write sample_call
    unfolding eq by (simp add: sample_world_def)
  ultimately show ?thesis using ws' sample_peaks by blast
qed

section \<open>Task weights: the end of an iteration\<close>

lemma loop_body_raises: "\<exists>e w'. loop_body E C st w = (Inl e, w')"
  by (auto simp: loop_body_def call_task_weights_from_file_def Let_def
      split: sum.splits prod.splits)

lemma rra_loop_raises:
  assumes "loop_test C st"
  shows "\<exists>e w'. rra_loop E C st w = Some (Inl e, w')"
proof -
  from loop_body_raises obtain e w' where "loop_body E C st w = (Inl e, w')" by blast
  with assms show ?thesis by (subst rra_loop.simps) simp
qed

lemma loop_body_reaches_line_231:
  assumes "choose_weights (min_max_err C) (max_max_err C) (avg_max_err C) (task_names C)
             (pErr st) (map fst (pErr st)) (task_weights st) = Inr ws'"
    and "write_task_weights_to_file E ws' (tasks_fpath C) (task_names C) False w = (Inr (), w1)"
    and "subprocess_call E (rra_command C) w1 = (Inr (), w2)"
    and "update_plot E (fig_fpath C) w2 = (Inr (), w3)"
  shows "loop_body E C st w = (Inl TypeError, w3)"
  by (simp add: loop_body_def assms call_task_weights_from_file_def)

lemma map_results_length:
  "map_results f xs = Inr ys \<Longrightarrow> length ys = length xs"
  by (induction xs arbitrary: ys) (auto simp: bind_def split: sum.splits)

lemma read_setup_length:
  "read_setup E F setup_fpath names omit lo hi exe = Inr (C, ws) \<Longrightarrow>
   length ws = length (task_names C)"
  by (auto simp: read_setup_def bind_def Let_def call_task_weights_from_file_def
      task_weights_from_file_def split: sum.splits dest: map_results_length)

lemma read_errors_state:
  "read_errors E F C ws n = Inr st \<Longrightarrow>
   task_weights st = ws \<and> (\<exists>c. max_error (pErr st) (task_names C) = Inr (maxerr st, c))
   \<and> (\<exists>c. min_error (pErr st) (task_names C) = Inr (minerr st, c))"
  by (auto simp: read_errors_def bind_def split: sum.splits)

lemma before_loop_state:
  assumes "before_loop E setup_fpath names omit lo hi exe w = (Inr (C, st), w0)"
  shows "length (task_weights st) = length (task_names C)
    \<and> (\<exists>c. max_error (pErr st) (task_names C) = Inr (maxerr st, c))
    \<and> (\<exists>c. min_error (pErr st) (task_names C) = Inr (minerr st, c))
    \<and> min_max_err C = lo \<and> max_max_err C = hi \<and> avg_max_err C = 0.5 * (lo + hi)"
proof -
  from assms have "\<exists>ws. read_setup E (files w) setup_fpath names omit lo hi exe = Inr (C, ws)
      \<and> read_errors E (files w0) C ws 0 = Inr st"
    by (auto simp: before_loop_def split: sum.splits prod.splits if_splits)
  then obtain ws where
    rs: "read_setup E (files w) setup_fpath names omit lo hi exe = Inr (C, ws)"
    and re: "read_errors E (files w0) C ws 0 = Inr st"
    by blast
  from read_setup_length [OF rs] read_errors_state [OF re] read_setup_thresholds [OF rs]
  show ?thesis by auto
qed

lemma choose_weights_succeeds:
  assumes "\<forall>c \<in> set cols. c \<in> set names \<longrightarrow> (\<exists>col. map_of T c = Some col \<and> col \<noteq> [])"
    and "length ws = length names"
  shows "\<exists>ws'. choose_weights lo hi avg names T cols ws = Inr ws' \<and> length ws' = length ws"
  using assms
proof (induction cols arbitrary: ws)
  case Nil
  then show ?case by simp
next
  case (Cons c cols)
  show ?case
  proof (cases "c \<in> set names")
    case False
    with Cons show ?thesis by simp
  next
    case True
    with Cons.prems obtain col where col: "map_of T c = Some col" "col \<noteq> []" by auto
    from True obtain i where i: "list_index names c = Some i" using list_index_mem by fastforce
    then have il: "i < length ws" using list_index_Some Cons.prems(2) by fastforce
    let ?e = "this_err_value c col"
    let ?ws1 = "if ?e > hi \<or> ?e < lo
                then ws[i := ws ! i + 0.5 * (if ?e > hi then ?e - avg else - \<bar>avg - ?e\<bar>) * ws ! i]
                else ws"
    have ws1: "length ?ws1 = length names"
      "choose_weights lo hi avg names T (c # cols) ws = choose_weights lo hi avg names T cols ?ws1"
      using True col i il Cons.prems(2)
      by (auto simp: this_err_spec column_def py_index_def getitem_def bind_def Let_def)
    from Cons.IH [of ?ws1] Cons.prems ws1 show ?thesis by auto
  qed
qed

lemma before_loop_choose_weights:
  assumes "before_loop E setup_fpath names omit lo hi exe w = (Inr (C, st), w0)"
  shows "\<exists>ws'. choose_weights (min_max_err C) (max_max_err C) (avg_max_err C) (task_names C)
             (pErr st) (map fst (pErr st)) (task_weights st) = Inr ws'"
proof -
  from before_loop_state [OF assms] obtain c where
    l: "length (task_weights st) = length (task_names C)"
    and m: "max_error (pErr st) (task_names C) = Inr (maxerr st, c)" by blast
  from m obtain r where "max_error_loop (pErr st) (task_names C) (map fst (pErr st)) None = Inr r"
    by (auto simp: max_error_def bind_def split: sum.splits)
  from choose_weights_succeeds [OF max_error_loop_ok [OF this] l] show ?thesis by blast
qed

text \<open>
  Claim C5. The body of the \<open>while\<close> loop ends with the call
  \<open>task_weights_from_file(tasks_fpath)\<close>, which lacks the required argument
  \<open>task_names\<close>. So no execution of the body completes: it always ends with an
  exception, the loop never tests the errors again, and the function ends with an
  exception whenever the loop is entered. The exception is \<open>TypeError\<close> whenever the
  steps before line 231 (writing the tasks file, running the tool, saving the plot) do
  not raise themselves; the loop over the columns cannot raise once the errors have been
  computed before the loop.
\<close>

theorem loop_never_completes_an_iteration:
  "(\<exists>e w'. loop_body E C st w = (Inl e, w'))
 \<and> (loop_test C st \<longrightarrow> (\<exists>e w'. rra_loop E C st w = Some (Inl e, w')))
 \<and> (before_loop E setup_fpath names omit lo hi exe w = (Inr (C, st), w0) \<and> loop_test C st \<longrightarrow>
      (\<exists>e w'. select_rra_task_weights E setup_fpath names omit lo hi exe w = Some (Inl e, w'))
    \<and> (\<exists>ws'. choose_weights (min_max_err C) (max_max_err C) (avg_max_err C) (task_names C)
                  (pErr st) (map fst (pErr st)) (task_weights st) = Inr ws'
          \<and> (\<forall>w1 w2 w3.
                write_task_weights_to_file E ws' (tasks_fpath C) (task_names C) False w0
                  = (Inr (), w1)
              \<and> subprocess_call E (rra_command C) w1 = (Inr (), w2)
              \<and> update_plot E (fig_fpath C) w2 = (Inr (), w3) \<longrightarrow>
                select_rra_task_weights E setup_fpath names omit lo hi exe w
                  = Some (Inl TypeError, w3))))"
proof (intro conjI impI)
  show "\<exists>e w'. loop_body E C st w = (Inl e, w')" by (rule loop_body_raises)
next
  assume "loop_test C st"
  then show "\<exists>e w'. rra_loop E C st w = Some (Inl e, w')" by (rule rra_loop_raises)
next
  assume a: "before_loop E setup_fpath names omit lo hi exe w = (Inr (C, st), w0) \<and> loop_test C st"
  then have s: "select_rra_task_weights E setup_fpath names omit lo hi exe w = rra_loop E C st w0"
    by (simp add: select_rra_task_weights_def)
  with a rra_loop_raises [of C st E w0]
  show "\<exists>e w'. select_rra_task_weights E setup_fpath names omit lo hi exe w = Some (Inl e, w')"
    by simp
  from a before_loop_choose_weights obtain ws' where
    ws': "choose_weights (min_max_err C) (max_max_err C) (avg_max_err C) (task_names C)
                  (pErr st) (map fst (pErr st)) (task_weights st) = Inr ws'" by blast
  have "select_rra_task_weights E setup_fpath names omit lo hi exe w = Some (Inl TypeError, w3)"
    if "write_task_weights_to_file E ws' (tasks_fpath C) (task_names C) False w0 = (Inr (), w1)
        \<and> subprocess_call E (rra_command C) w1 = (Inr (), w2)
        \<and> update_plot E (fig_fpath C) w2 = (Inr (), w3)" for w1 w2 w3
  proof -
    from that loop_body_reaches_line_231 [OF ws', of E w0 w1 w2 w3]
    have "loop_body E C st w0 = (Inl TypeError, w3)" by blast
    with a show ?thesis unfolding s by (subst rra_loop.simps) simp
  qed
  with ws' show "\<exists>ws'. choose_weights (min_max_err C) (max_max_err C) (avg_max_err C) (task_names C)
                  (pErr st) (map fst (pErr st)) (task_weights st) = Inr ws'
          \<and> (\<forall>w1 w2 w3.
                write_task_weights_to_file E ws' (tasks_fpath C) (task_names C) False w0
                  = (Inr (), w1)
              \<and> subprocess_call E (rra_command C) w1 = (Inr (), w2)
              \<and> update_plot E (fig_fpath C) w2 = (Inr (), w3) \<longrightarrow>
                select_rra_task_weights E setup_fpath names omit lo hi exe w
                  = Some (Inl TypeError, w3))"
    by blast
qed

theorem loop_never_completes_an_iteration_witness:
  "loop_test sample_ctx sample_state
 \<and> loop_body sample_env sample_ctx sample_state sample_world = (Inl TypeError, sample_world_end)
 \<and> select_rra_task_weights sample_env ''setup.xml'' (Some [''pelvis_tx'', ''hip_flexion_r''])
      None 1 (3 / 2) ''rra'' sample_world = Some (Inl TypeError, sample_world_end)"
proof -
  from loop_never_completes_an_iteration [where E = sample_env and C = sample_ctx
      and st = sample_state and w = sample_world and setup_fpath = "''setup.xml''"
      and names = "Some [''pelvis_tx'', ''hip_flexion_r'']" and omit = None and lo = 1
      and hi = "3 / 2" and exe = "''rra''" and ?w0.0 = sample_world]
    sample_before_loop sample_loop_test
  obtain ws' where ws': "choose_weights 1 (3 / 2) (5 / 4) [''pelvis_tx'', ''hip_flexion_r'']
        sample_table (map fst sample_table) [10, 4] = Inr ws'"
    and r: "\<forall>w1 w2 w3.
        write_task_weights_to_file sample_env ws' ''tasks.xml'' [''pelvis_tx'', ''hip_flexion_r'']
          False sample_world = (Inr (), w1)
      \<and> subprocess_call sample_env [''rra'', ''-S'', ''setup.xml''] w1 = (Inr (), w2)
      \<and> update_plot sample_env ''residuals_and_kinematics_error_auto_rra.pdf'' w2 = (Inr (), w3) \<longrightarrow>
        select_rra_task_weights sample_env ''setup.xml'' (Some [''pelvis_tx'', ''hip_flexion_r''])
          None 1 (3 / 2) ''rra'' sample_world = Some (Inl TypeError, w3)"
    unfolding sample_state_fields sample_ctx_fields by auto
  from ws' sample_choose have eq: "ws' = [55 / 4, 3 / 2]" by simp
  from r [rule_format, of sample_world_written sample_world_run sample_world_end]
    sample_write sample_call sample_plot
  have "select_rra_task_weights sample_env ''setup.xml'' (Some [''pelvis_tx'', ''hip_flexion_r''])
      None 1 (3 / 2) ''rra'' sample_world = Some (Inl TypeError, sample_world_end)"
    unfolding eq by simp
  with sample_loop_test sample_loop_body show ?thesis by simp
qed

section \<open>Task weights: the default task names\<close>

lemma all_task_names_raises: "all_task_names rra_globals p = Inl NameError"
  by (simp add: all_task_names_def rra_globals_def)

text \<open>
  Claim C10. Called without \<open>task_names\<close> (the default \<open>None\<close>, documented as "all
  tasks modified") on a setup file that names its task set, \<open>select_rra_task_weights\<close>
  calls \<open>all_task_names\<close>, which reads the name \<open>cmcts\<close> that neither it nor the
  module binds: the function raises \<open>NameError\<close>, and has changed nothing.
\<close>

theorem select_without_task_names_raises:
  assumes "files w setup_fpath = Some (XmlFile rra)"
    and "findall rra ''task_set_file'' = e # rest"
    and "text' e = Some s"
  shows "all_task_names rra_globals tasks_fpath_v = Inl NameError
     \<and> select_rra_task_weights E setup_fpath None omit lo hi exe w = Some (Inl NameError, w)"
proof -
  have "read_setup E (files w) setup_fpath None omit lo hi exe = Inl NameError"
    using assms
    by (simp add: read_setup_def etree_parse_def item0_def text_strip_def bind_def Let_def
        all_task_names_raises)
  then show ?thesis
    by (simp add: select_rra_task_weights_def before_loop_def all_task_names_raises)
qed

theorem select_without_task_names_raises_witness:
  "select_rra_task_weights sample_env ''setup.xml'' None None 0.5 1.5 ''rra'' sample_world
     = Some (Inl NameError, sample_world)"
proof -
  have f: "files sample_world ''setup.xml'' = Some (XmlFile sample_setup)"
    by (simp add: sample_world_def sample_files_def)
  have t: "findall sample_setup ''task_set_file''
      = Element ''task_set_file'' [] (Some '' tasks.xml '') [] # []"
    by (simp add: findall_def sample_setup_def)
  have x: "text' (Element ''task_set_file'' [] (Some '' tasks.xml '') []) = Some '' tasks.xml ''"
    by simp
  from select_without_task_names_raises [OF f t x, of "''tasks.xml''" sample_env None "0.5" "1.5"
      "''rra''"]
  show ?thesis by simp
qed

section \<open>Task weights: when the loop ends\<close>

text \<open>
  The test of the loop: the loop is left without an exception exactly when the error of
  every tracked column is within \<open>[min_max_err, max_max_err]\<close>, that is when the largest
  is at most \<open>max_max_err\<close> and the smallest at least \<open>min_max_err\<close>.
\<close>

lemma loop_test_iff:
  assumes "distinct (map fst (pErr st))"
    and "\<forall>(c, col) \<in> set (pErr st). c \<in> set (task_names C) \<longrightarrow> col \<noteq> []"
    and "max_error (pErr st) (task_names C) = Inr (maxerr st, cmax)"
    and "min_error (pErr st) (task_names C) = Inr (minerr st, cmin)"
  shows "(\<not> loop_test C st)
     = (\<forall>e \<in> tracked_errors (pErr st) (task_names C). min_max_err C \<le> e \<and> e \<le> max_max_err C)"
proof -
  have ne: "tracked_errors (pErr st) (task_names C) \<noteq> {}"
  proof
    assume "tracked_errors (pErr st) (task_names C) = {}"
    then have "tracked_error_list (pErr st) (task_names C) (map fst (pErr st)) = []"
      using tracked_error_list_set [OF assms(1), of "task_names C"] by simp
    moreover from max_error_loop_char [OF tracked_all_cols [OF assms(1,2)], of None]
    obtain r where r: "max_error_loop (pErr st) (task_names C) (map fst (pErr st)) None = Inr r"
      and "\<forall>m c. r = Some (m, c) \<longrightarrow>
          m \<in> set (tracked_error_list (pErr st) (task_names C) (map fst (pErr st)))"
      by (auto simp: acc_set_def)
    ultimately have "r = None" by (cases r) auto
    with r assms(3) show False by (simp add: max_error_def bind_def)
  qed
  have fin: "finite (tracked_errors (pErr st) (task_names C))"
    using tracked_error_list_set [OF assms(1), of "task_names C"]
    by (metis List.finite_set)
  from max_error_spec [OF assms(1,2) ne] assms(3)
  have mx: "maxerr st = Max (tracked_errors (pErr st) (task_names C))" by auto
  from min_error_spec [OF assms(1,2) ne] assms(4)
  have mn: "minerr st = Min (tracked_errors (pErr st) (task_names C))" by auto
  show ?thesis
    unfolding loop_test_def mx mn using fin ne by (auto simp: not_less)
qed

text \<open>
  Claim C4 says that the loop ends exactly when every tracked error is in range and
  that nothing bounds the number of its iterations. On the sample files, with the
  thresholds 1.0 and 1.5, the errors are 2.0 and 0.0, so the loop is entered; the body
  writes the new weights, runs the tool once and saves the figure, and line 231 then
  raises \<open>TypeError\<close>. The function ends there, although the tool's output still has
  the errors 2.0 and 0.0: the loop has not run until the errors are in range, and it can
  never start a second iteration.
\<close>

theorem sample_run_stops_at_line_231:
  "loop_test sample_ctx sample_state
 \<and> select_rra_task_weights sample_env ''setup.xml'' (Some [''pelvis_tx'', ''hip_flexion_r''])
      None 1 1.5 ''rra'' sample_world = Some (Inl TypeError, sample_world_end)
 \<and> events sample_world_end
      = [Wrote ''tasks.xml'' [13.75, 1.5], Called [''rra'', ''-S'', ''setup.xml''],
         Saved ''residuals_and_kinematics_error_auto_rra.pdf'']
 \<and> read_errors sample_env (files sample_world_end) sample_ctx [13.75, 1.5] 1
      = Inr \<lparr>task_weights = [13.75, 1.5], pErr = sample_table, maxerr = 2, minerr = 0,
             iter_count = 1\<rparr>"
proof -
  have "storage2numpy sample_env (files sample_world_end) ''results/subject01_pErr.sto''
      = Inr sample_table"
    using sample_storage
    by (simp add: sample_world_end_def storage2numpy_def open_lines_def sample_files_def)
  then have "read_errors sample_env (files sample_world_end) sample_ctx [13.75, 1.5] 1
      = Inr \<lparr>task_weights = [13.75, 1.5], pErr = sample_table, maxerr = 2, minerr = 0,
             iter_count = 1\<rparr>"
    by (simp add: read_errors_def sample_ctx_fields sample_errors bind_def)
  with sample_loop_test sample_run show ?thesis
    by (simp add: sample_world_end_def)
qed

end
